theory Spec2Isabelle
  imports Main
begin

section \<open>Platform values\<close>

text \<open>
  JavaScript strings are modelled as \<open>string\<close> (8-bit characters), JavaScript numbers
  that the code uses as counters, status codes and millisecond delays as \<open>int\<close> or
  \<open>nat\<close> (fractions, \<open>NaN\<close> and magnitudes beyond \<open>2^53\<close> are outside the model). The attempt counter \<open>currentAttempt\<close> starts at 1 and only grows, so it is
  a \<open>nat\<close>; \<open>retry\<close>, \<open>retries\<close> and \<open>retryDelay\<close> are caller-supplied and
  may be zero or negative, so they are \<open>int\<close>.
\<close>

text \<open>\<open>String(n)\<close> for an integer-valued number: decimal digits with a leading minus sign.\<close>

fun digits :: "nat \<Rightarrow> string" where
  "digits n = (if n < 10 then [char_of (48 + n)] else digits (n div 10) @ [char_of (48 + n mod 10)])"

declare digits.simps [simp del]

definition String_number :: "int \<Rightarrow> string" where
  "String_number i = (if i < 0 then CHR ''-'' # digits (nat (- i)) else digits (nat i))"

text \<open>
  A \<open>Response\<close> as far as the code reads it: the status, the header list and a body that
  tells two responses apart. \<open>response.ok\<close> is the platform's test for the success range.
  Header names are kept in the spelling the code asks for.
\<close>

record response =
  status :: int
  headers :: "(string \<times> string) list"
  body :: string

definition ok :: "response \<Rightarrow> bool" where
  "ok r = (200 \<le> status r \<and> status r \<le> 299)"

definition headers_get :: "(string \<times> string) list \<Rightarrow> string \<Rightarrow> string option" where
  "headers_get hs name = map_of hs name"

text \<open>
  The values a promise can reject with, and the values an \<open>AbortSignal\<close> can carry as its
  reason. \<open>DOMException name message\<close>, \<open>TypeError message\<close> and
  \<open>PlainError name message\<close> are the platform's \<open>Error\<close> instances; the last five
  constructors are the classes of the repository (\<open>ServerError\<close> with its response, the
  others with their message and, where the code passes one, their \<open>cause\<close>).
\<close>

datatype js_value =
    StringValue string
  | OtherValue
  | DOMException string string
  | TypeError string
  | PlainError string string
  | ServerError response
  | TimeoutError string js_value
  | AbortError string js_value
  | NetworkError string js_value
  | UnknownError string

text \<open>
  \<open>error.name\<close> and \<open>error.message\<close> for the values that are \<open>instanceof Error\<close>.
  The repository's classes are declared with empty bodies
  (\<open>class NetworkError extends ClientError {}\<close>), so their \<open>name\<close> is the inherited
  \<open>"Error"\<close>.
\<close>

fun error_name :: "js_value \<Rightarrow> string option" where
  "error_name (StringValue s) = None"
| "error_name OtherValue = None"
| "error_name (DOMException name msg) = Some name"
| "error_name (TypeError msg) = Some ''TypeError''"
| "error_name (PlainError name msg) = Some name"
| "error_name (ServerError r) = Some ''Error''"
| "error_name (TimeoutError msg c) = Some ''Error''"
| "error_name (AbortError msg c) = Some ''Error''"
| "error_name (NetworkError msg c) = Some ''Error''"
| "error_name (UnknownError msg) = Some ''Error''"

fun error_message :: "js_value \<Rightarrow> string" where
  "error_message (StringValue s) = []"
| "error_message OtherValue = []"
| "error_message (DOMException name msg) = msg"
| "error_message (TypeError msg) = msg"
| "error_message (PlainError name msg) = msg"
| "error_message (ServerError r) = ''Server replied with status: '' @ String_number (status r)"
| "error_message (TimeoutError msg c) = msg"
| "error_message (AbortError msg c) = msg"
| "error_message (NetworkError msg c) = msg"
| "error_message (UnknownError msg) = msg"

datatype fetch_result = Resolves response | Rejects js_value

section \<open>The classifying engine: \<open>Builder.response\<close>\<close>

subsection \<open>\<open>Builder.#handleError\<close>\<close>

definition handleError :: "js_value \<Rightarrow> js_value" where
  "handleError error =
     (case error of
        ServerError r \<Rightarrow> error
      | _ \<Rightarrow>
        (case error_name error of
           Some name \<Rightarrow>
             if name = ''AbortError'' then AbortError (error_message error) error
             else if name = ''NetworkError'' \<or> name = ''ConnectionRefused'' \<or> name = ''TypeError''
               then NetworkError (error_message error) error
             else if name = ''TimeoutError'' then TimeoutError (error_message error) error
             else UnknownError ''An unknown error occurred.''
         | None \<Rightarrow> UnknownError ''An unknown error occurred.''))"

subsection \<open>Constants and \<open>shouldRetryRequest\<close>\<close>

definition MIN_RETRY_DELAY :: int where
  "MIN_RETRY_DELAY = 200"

definition MAX_RETRY_DELAY :: int where
  "MAX_RETRY_DELAY = 10000"

definition RETRY_CODE_LIST :: "int list" where
  "RETRY_CODE_LIST = [408, 409, 425, 429, 500, 502, 503, 504]"

text \<open>
  The \<open>Request\<close> of one attempt: the method it carries and the attempt that built it
  (each attempt constructs its own request around its own merged signal).
\<close>

record request =
  request_method :: string
  built_by :: nat

text \<open>
  The platform's \<open>Request\<close> constructor normalises the method it is given: a method that
  matches \<open>DELETE\<close>, \<open>GET\<close>, \<open>HEAD\<close>, \<open>OPTIONS\<close>, \<open>POST\<close> or \<open>PUT\<close> without regard
  to the case of its letters is put in upper case, any other method is kept as it is.
  So \<open>request.method\<close> is \<open>"GET"\<close> also for a builder whose method is \<open>"get"\<close>.
\<close>

definition to_upper :: "char \<Rightarrow> char" where
  "to_upper c =
     (if (97::nat) \<le> of_char c \<and> of_char c \<le> (122::nat) then char_of (of_char c - (32::nat))
      else c)"

definition normalize_method :: "string \<Rightarrow> string" where
  "normalize_method m =
     (let upper = map to_upper m
      in if upper \<in> set [''DELETE'', ''GET'', ''HEAD'', ''OPTIONS'', ''POST'', ''PUT''] then upper
         else m)"

definition new_Request :: "string \<Rightarrow> nat \<Rightarrow> request" where
  "new_Request m attempt = \<lparr>request_method = normalize_method m, built_by = attempt\<rparr>"

definition shouldRetryRequest :: "request \<Rightarrow> response \<Rightarrow> int \<Rightarrow> int \<Rightarrow> bool" where
  "shouldRetryRequest req resp currentAttempt maxAttempts =
     (currentAttempt < maxAttempts \<and>
      request_method req = ''GET'' \<and>
      status resp \<in> set RETRY_CODE_LIST)"

subsection \<open>\<open>parseInt(s, 10)\<close>\<close>

text \<open>
  The platform's \<open>parseInt\<close> with radix 10: leading white space is skipped, one sign is
  read, then the longest run of decimal digits; anything after it is ignored. No digit
  gives \<open>NaN\<close>, here \<open>None\<close>.
\<close>

definition is_white_space :: "char \<Rightarrow> bool" where
  "is_white_space c = (c \<in> set [CHR 0x09, CHR 0x0A, CHR 0x0B, CHR 0x0C, CHR 0x0D, CHR 0x20, CHR 0xA0])"

definition is_digit :: "char \<Rightarrow> bool" where
  "is_digit c = ((48::nat) \<le> of_char c \<and> of_char c \<le> (57::nat))"

definition digit_value :: "char \<Rightarrow> int" where
  "digit_value c = int (of_char c :: nat) - 48"

definition decimal_value :: "string \<Rightarrow> int" where
  "decimal_value ds = foldl (\<lambda>acc c. 10 * acc + digit_value c) 0 ds"

definition parseInt :: "string \<Rightarrow> int option" where
  "parseInt s =
     (let t = dropWhile is_white_space s;
          neg = (t \<noteq> [] \<and> hd t = CHR ''-'');
          u = (if t \<noteq> [] \<and> (hd t = CHR ''-'' \<or> hd t = CHR ''+'') then tl t else t);
          ds = takeWhile is_digit u
      in if ds = [] then None
         else Some (if neg then - decimal_value ds else decimal_value ds))"

subsection \<open>The backoff computation\<close>

text \<open>
  Lines 1277 to 1290 of the source: the exponential backoff, the \<open>Retry-After\<close> override
  (skipped for an absent or empty header, and for a value that \<open>parseInt\<close> turns into
  \<open>NaN\<close>), and the clamp.
\<close>

definition backoffDelay :: "int \<Rightarrow> nat \<Rightarrow> response \<Rightarrow> int" where
  "backoffDelay retryDelay currentAttempt resp =
     (let computed = retryDelay * 2 ^ (currentAttempt - 1);
          overridden =
            (case headers_get (headers resp) ''Retry-After'' of
               None \<Rightarrow> computed
             | Some retryAfter \<Rightarrow>
                 if retryAfter = [] then computed
                 else (case parseInt retryAfter of
                         None \<Rightarrow> computed
                       | Some retryAfterSeconds \<Rightarrow> max (retryAfterSeconds * 1000) computed))
      in min MAX_RETRY_DELAY (max MIN_RETRY_DELAY overridden))"

subsection \<open>\<open>Builder.response\<close>\<close>

text \<open>
  The builder as the engine reads it. The fields of \<open>#options\<close> that \<open>run\<close>
  destructures are inlined; an absent option is \<open>None\<close> and takes the default of the
  destructuring pattern. The transport and the two hooks are caller code: the model
  records what they do at each call, indexed by the attempt that calls them. A hook
  either returns (\<open>None\<close>) or throws a value; the transport resolves with a response or
  rejects with a value. The fields that the \<open>tryRequest\<close> variant reads as well are
  in the base record. The \<open>Request\<close> constructor is taken to accept the description.
\<close>

record transport_options =
  http_method :: string
  fetch :: "nat \<Rightarrow> fetch_result"
  retryDelay :: "int option"
  timeout :: "int option"

record builder = transport_options +
  beforeSend :: "(nat \<Rightarrow> js_value option) option"
  onResponse :: "(nat \<Rightarrow> js_value option) option"
  retry :: "int option"

definition retry_of :: "builder \<Rightarrow> int" where
  "retry_of b = (case retry b of None \<Rightarrow> 0 | Some v \<Rightarrow> v)"

definition retryDelay_of :: "builder \<Rightarrow> int" where
  "retryDelay_of b = (case retryDelay b of None \<Rightarrow> 500 | Some v \<Rightarrow> v)"

definition timeout_of :: "builder \<Rightarrow> int" where
  "timeout_of b = (case timeout b of None \<Rightarrow> 10000 | Some v \<Rightarrow> v)"

text \<open>\<open>hook?.(x)\<close>: an absent hook is not called and nothing is thrown.\<close>

definition call_hook :: "(nat \<Rightarrow> js_value option) option \<Rightarrow> nat \<Rightarrow> js_value option" where
  "call_hook hook n = (case hook of None \<Rightarrow> None | Some h \<Rightarrow> h n)"

text \<open>What an execution does, in order.\<close>

datatype event =
    MergeAbortSignals nat int
  | NewRequest nat
  | BeforeSend nat
  | Fetch nat
  | OnResponse nat response
  | Warn nat int int int
  | Delay int
  | SetTimeout nat int
  | MergeSignals nat
  | ClearTimeout nat

text \<open>
  \<open>run\<close>, the recursive closure of \<open>Builder.response\<close>. The result is the trace of the
  attempt and of every attempt it recurses into, with the value the promise settles
  with: \<open>Inr\<close> the response it resolves with, \<open>Inl\<close> the value it rejects with.
  \<open>beforeSend\<close> is awaited before the \<open>try\<close>, so what it throws leaves this attempt
  unclassified; the recursive call is awaited inside the \<open>try\<close>, so what it rejects with
  passes through \<open>#handleError\<close> of this attempt again.
\<close>

function run :: "builder \<Rightarrow> nat \<Rightarrow> event list \<times> (js_value + response)" where
  "run b currentAttempt =
     (let request = new_Request (http_method b) currentAttempt;
          pre = [MergeAbortSignals currentAttempt (timeout_of b), NewRequest (built_by request)]
                @ (case beforeSend b of None \<Rightarrow> [] | Some h \<Rightarrow> [BeforeSend (built_by request)])
      in case call_hook (beforeSend b) currentAttempt of
           Some thrown \<Rightarrow> (pre, Inl thrown)
         | None \<Rightarrow>
           (case fetch b currentAttempt of
              Rejects err \<Rightarrow> (pre @ [Fetch (built_by request)], Inl (handleError err))
            | Resolves response \<Rightarrow>
               (let tr = pre @ [Fetch (built_by request)]
                         @ (case onResponse b of None \<Rightarrow> []
                            | Some h \<Rightarrow> [OnResponse currentAttempt response])
                in case call_hook (onResponse b) currentAttempt of
                     Some err \<Rightarrow> (tr, Inl (handleError err))
                   | None \<Rightarrow>
                       if ok response then (tr, Inr response)
                       else if \<not> shouldRetryRequest request response (int currentAttempt) (retry_of b)
                       then (tr, Inl (handleError (ServerError response)))
                       else
                         (let backoff = backoffDelay (retryDelay_of b) currentAttempt response;
                              rest = run b (currentAttempt + 1)
                          in (tr @ [Warn currentAttempt (retry_of b) (status response) backoff,
                                    Delay backoff] @ fst rest,
                              case snd rest of
                                Inl err \<Rightarrow> Inl (handleError err)
                              | Inr r \<Rightarrow> Inr r)))))"
  by pat_completeness auto
termination
  by (relation "measure (\<lambda>(b, n). nat (retry_of b - int n))")
     (auto simp: shouldRetryRequest_def)

declare run.simps [simp del]

definition Builder_response :: "builder \<Rightarrow> event list \<times> (js_value + response)" where
  "Builder_response b = run b 1"

section \<open>The result-returning engine: \<open>tryRequest\<close>\<close>

datatype http_error = SERVER_ERROR response | CLIENT_ERROR string

datatype ('t, 'e) result = Success 't | Failure 'e

definition TIMEOUT_MESSAGE :: string where
  "TIMEOUT_MESSAGE = ''Request timed out''"

text \<open>\<open>s.startsWith(p)\<close>, \<open>s.endsWith(p)\<close> and \<open>s.includes(p)\<close>.\<close>

definition startsWith :: "string \<Rightarrow> string \<Rightarrow> bool" where
  "startsWith s p = (take (length p) s = p)"

definition endsWith :: "string \<Rightarrow> string \<Rightarrow> bool" where
  "endsWith s p = (length p \<le> length s \<and> drop (length s - length p) s = p)"

fun string_includes :: "string \<Rightarrow> string \<Rightarrow> bool" where
  "string_includes [] p = (p = [])"
| "string_includes (c # s) p = (startsWith (c # s) p \<or> string_includes s p)"

record request_context = transport_options +
  retries :: "int option"

definition retries_of :: "request_context \<Rightarrow> int" where
  "retries_of ctx = (case retries ctx of None \<Rightarrow> 1 | Some v \<Rightarrow> v)"

definition ctx_retryDelay :: "request_context \<Rightarrow> int" where
  "ctx_retryDelay ctx = (case retryDelay ctx of None \<Rightarrow> 1000 | Some v \<Rightarrow> v)"

definition ctx_timeout :: "request_context \<Rightarrow> int" where
  "ctx_timeout ctx = (case timeout ctx of None \<Rightarrow> 10000 | Some v \<Rightarrow> v)"

text \<open>
  \<open>tryRequest\<close> with its \<open>try\<close>/\<open>catch\<close>/\<open>finally\<close>: the \<open>finally\<close> block clears the
  timer of this attempt after everything the \<open>catch\<close> block awaited, the recursive call
  included.
\<close>

function tryRequest :: "request_context \<Rightarrow> nat \<Rightarrow> event list \<times> (response, http_error) result" where
  "tryRequest ctx currentAttempt =
     (let pre = [SetTimeout currentAttempt (ctx_timeout ctx), MergeSignals currentAttempt,
                 NewRequest currentAttempt, Fetch currentAttempt];
          finally_block = [ClearTimeout currentAttempt]
      in case fetch ctx currentAttempt of
           Resolves response \<Rightarrow>
             if \<not> ok response then (pre @ finally_block, Failure (SERVER_ERROR response))
             else (pre @ finally_block, Success response)
         | Rejects err \<Rightarrow>
            (case err of
               StringValue e \<Rightarrow>
                 if string_includes e TIMEOUT_MESSAGE then
                   if int currentAttempt < retries_of ctx then
                     (let rest = tryRequest ctx (currentAttempt + 1)
                      in (pre @ [Delay (ctx_retryDelay ctx * 2 ^ currentAttempt)] @ fst rest @ finally_block,
                          snd rest))
                   else (pre @ finally_block, Failure (CLIENT_ERROR TIMEOUT_MESSAGE))
                 else (pre @ finally_block, Failure (CLIENT_ERROR (''Request was aborted: '' @ e)))
             | DOMException name msg \<Rightarrow>
                 if name = ''AbortError'' then (pre @ finally_block, Failure (CLIENT_ERROR msg))
                 else (pre @ finally_block, Failure (CLIENT_ERROR ''Unknown error.''))
             | TypeError msg \<Rightarrow>
                 if string_includes msg ''Failed to fetch.'' then
                   if int currentAttempt < retries_of ctx then
                     (let rest = tryRequest ctx (currentAttempt + 1)
                      in (pre @ [Delay (ctx_retryDelay ctx * 2 ^ currentAttempt)] @ fst rest @ finally_block,
                          snd rest))
                   else (pre @ finally_block, Failure (CLIENT_ERROR ''Network error.''))
                 else (pre @ finally_block, Failure (CLIENT_ERROR ''Unknown error.''))
             | _ \<Rightarrow> (pre @ finally_block, Failure (CLIENT_ERROR ''Unknown error.''))))"
  by pat_completeness auto
termination
  by (relation "measure (\<lambda>(ctx, n). nat (retries_of ctx - int n))") auto

declare tryRequest.simps [simp del]

section \<open>\<open>HttpClient.#pathname\<close>\<close>

datatype segment = NumberSegment int | StringSegment string | NullSegment | UndefinedSegment

definition trim :: "string \<Rightarrow> string" where
  "trim s = rev (dropWhile is_white_space (rev (dropWhile is_white_space s)))"

text \<open>\<open>segments.join(sep)\<close>.\<close>

fun join :: "string \<Rightarrow> string list \<Rightarrow> string" where
  "join sep [] = []"
| "join sep [x] = x"
| "join sep (x # y # ys) = x @ sep @ join sep (y # ys)"

text \<open>The body of the \<open>for\<close> loop for a string segment: trim, then the two slices.\<close>

definition strip_segment :: "string \<Rightarrow> string" where
  "strip_segment segment0 =
     (let segment1 = trim segment0;
          segment2 = (if startsWith segment1 ''/'' then drop 1 segment1 else segment1);
          segment3 = (if endsWith segment2 ''/'' then take (length segment2 - 1) segment2
                      else segment2)
      in segment3)"

text \<open>The loop, with the array \<open>segments\<close> it pushes to.\<close>

fun pathname_loop :: "segment list \<Rightarrow> string list \<Rightarrow> string list" where
  "pathname_loop [] segments = segments"
| "pathname_loop (UndefinedSegment # path) segments = pathname_loop path segments"
| "pathname_loop (NullSegment # path) segments = pathname_loop path segments"
| "pathname_loop (NumberSegment n # path) segments =
     pathname_loop path (segments @ [String_number n])"
| "pathname_loop (StringSegment s # path) segments =
     (let segment = strip_segment s
      in if length segment > 0 then pathname_loop path (segments @ [segment])
         else pathname_loop path segments)"

definition pathname :: "segment list \<Rightarrow> string" where
  "pathname path = join ''/'' (pathname_loop path [])"

section \<open>The signal composers: \<open>mergeAbortSignals\<close> and \<open>mergeSignals\<close>\<close>

text \<open>
  Abort signals live in a heap and are named by their address. The composers create two
  kinds of closures: \<open>onAbort\<close>, which aborts the composer's controller, and a cleanup
  function, which captures the source signals and \<open>onAbort\<close>. The first kind is only
  ever registered on source signals, the second only on the signal of the composer's
  controller, so the heap keeps source signals and controller signals in two stores,
  each with its own kind of listener.

  \<open>OnAbort c\<close> is the closure \<open>() => controller.abort()\<close> of \<open>mergeAbortSignals\<close>;
  \<open>OnAbortReason c\<close> is the closure of \<open>mergeSignals\<close>, which passes the reason of the
  event's target on and is registered with \<open>{ once: true }\<close>. \<open>Cleanup\<close> is the arrow
  function of \<open>mergeAbortSignals\<close> (over the timeout signal and the optional user signal),
  \<open>CleanupAll\<close> the \<open>cleanup\<close> of \<open>mergeSignals\<close> (over the list of signals, registered
  with \<open>{ once: true }\<close>).
\<close>

record 'l abort_signal =
  aborted :: bool
  reason :: "js_value option"
  listeners :: "'l list"

datatype on_abort = OnAbort nat | OnAbortReason nat

datatype cleanup = Cleanup nat "nat option" on_abort | CleanupAll "nat list" on_abort

fun once_on_abort :: "on_abort \<Rightarrow> bool" where
  "once_on_abort (OnAbort c) = False"
| "once_on_abort (OnAbortReason c) = True"

fun once_cleanup :: "cleanup \<Rightarrow> bool" where
  "once_cleanup (Cleanup t u l) = False"
| "once_cleanup (CleanupAll ss l) = True"

record heap =
  sources :: "nat \<Rightarrow> on_abort abort_signal"
  controllers :: "nat \<Rightarrow> cleanup abort_signal"
  next_controller :: nat

text \<open>
  The reason of \<open>controller.abort()\<close> called without an argument: a new
  \<open>AbortError\<close> \<open>DOMException\<close> (the wording of its message is the platform's).
\<close>

definition default_abort_reason :: js_value where
  "default_abort_reason = DOMException ''AbortError'' ''signal is aborted without reason''"

text \<open>
  \<open>addEventListener\<close> ignores a callback that is registered already;
  \<open>removeEventListener\<close> removes it.
\<close>

definition addEventListener :: "'l \<Rightarrow> 'l list \<Rightarrow> 'l list" where
  "addEventListener l ls = (if l \<in> set ls then ls else ls @ [l])"

definition removeEventListener :: "'l \<Rightarrow> 'l list \<Rightarrow> 'l list" where
  "removeEventListener l ls = removeAll l ls"

definition source_add :: "nat \<Rightarrow> on_abort \<Rightarrow> heap \<Rightarrow> heap" where
  "source_add s l h =
     h\<lparr>sources := (sources h)(s := (sources h s)\<lparr>listeners := addEventListener l (listeners (sources h s))\<rparr>)\<rparr>"

definition source_remove :: "nat \<Rightarrow> on_abort \<Rightarrow> heap \<Rightarrow> heap" where
  "source_remove s l h =
     h\<lparr>sources := (sources h)(s := (sources h s)\<lparr>listeners := removeEventListener l (listeners (sources h s))\<rparr>)\<rparr>"

definition controller_add :: "nat \<Rightarrow> cleanup \<Rightarrow> heap \<Rightarrow> heap" where
  "controller_add c l h =
     h\<lparr>controllers := (controllers h)(c := (controllers h c)\<lparr>listeners := addEventListener l (listeners (controllers h c))\<rparr>)\<rparr>"

definition controller_remove :: "nat \<Rightarrow> cleanup \<Rightarrow> heap \<Rightarrow> heap" where
  "controller_remove c l h =
     h\<lparr>controllers := (controllers h)(c := (controllers h c)\<lparr>listeners := removeEventListener l (listeners (controllers h c))\<rparr>)\<rparr>"

text \<open>
  The bodies of the cleanup functions: lines 1419 to 1422 for \<open>mergeAbortSignals\<close>, the
  loop of lines 609 to 613 for \<open>mergeSignals\<close>.
\<close>

fun run_cleanup :: "cleanup \<Rightarrow> heap \<Rightarrow> heap" where
  "run_cleanup (Cleanup timeoutSignal userSignal onAbort) h =
     (let h1 = source_remove timeoutSignal onAbort h
      in case userSignal of None \<Rightarrow> h1 | Some u \<Rightarrow> source_remove u onAbort h1)"
| "run_cleanup (CleanupAll signals onAbort) h =
     fold (\<lambda>signal hh. source_remove signal onAbort hh) signals h"

text \<open>
  \<open>controller.abort(reason)\<close> on a composer's controller: nothing when its signal is
  aborted already; otherwise the signal becomes aborted, with the default reason when
  none is given, and the abort event goes to the listeners registered at that moment, in
  order, skipping one that was removed meanwhile and removing a \<open>once\<close> listener before
  it runs.
\<close>

definition controller_abort :: "nat \<Rightarrow> js_value option \<Rightarrow> heap \<Rightarrow> heap" where
  "controller_abort c r h =
     (if aborted (controllers h c) then h
      else
        (let h1 = h\<lparr>controllers := (controllers h)(c := (controllers h c)
                     \<lparr>aborted := True,
                      reason := Some (case r of None \<Rightarrow> default_abort_reason | Some v \<Rightarrow> v)\<rparr>)\<rparr>
         in fold (\<lambda>l hh. if l \<in> set (listeners (controllers hh c))
                          then run_cleanup l (if once_cleanup l then controller_remove c l hh else hh)
                          else hh)
                 (listeners (controllers h1 c)) h1))"

text \<open>
  The bodies of the two \<open>onAbort\<close> closures (line 1400, and lines 601 to 607 where the
  event's target is the source signal that fired).
\<close>

fun run_onAbort :: "on_abort \<Rightarrow> nat \<Rightarrow> heap \<Rightarrow> heap" where
  "run_onAbort (OnAbort c) target h = controller_abort c None h"
| "run_onAbort (OnAbortReason c) target h = controller_abort c (reason (sources h target)) h"

text \<open>
  A source signal fires with a reason: the timer of \<open>AbortSignal.timeout\<close> elapses, or the
  caller aborts the controller of the user signal.
\<close>

definition signal_abort :: "nat \<Rightarrow> js_value \<Rightarrow> heap \<Rightarrow> heap" where
  "signal_abort s r h =
     (if aborted (sources h s) then h
      else
        (let h1 = h\<lparr>sources := (sources h)(s := (sources h s)
                     \<lparr>aborted := True, reason := Some r\<rparr>)\<rparr>
         in fold (\<lambda>l hh. if l \<in> set (listeners (sources hh s))
                          then run_onAbort l s (if once_on_abort l then source_remove s l hh else hh)
                          else hh)
                 (listeners (sources h1 s)) h1))"

text \<open>\<open>new AbortController()\<close>: a fresh, unaborted signal without listeners.\<close>

definition new_AbortController :: "heap \<Rightarrow> nat \<times> heap" where
  "new_AbortController h =
     (next_controller h,
      h\<lparr>controllers := (controllers h)(next_controller h :=
           \<lparr>aborted = False, reason = None, listeners = []\<rparr>),
        next_controller := Suc (next_controller h)\<rparr>)"

text \<open>
  \<open>mergeAbortSignals\<close> (lines 1393 to 1425): returns the address of the merged signal
  and the heap it leaves.
\<close>

definition mergeAbortSignals :: "nat \<Rightarrow> nat option \<Rightarrow> heap \<Rightarrow> nat \<times> heap" where
  "mergeAbortSignals timeoutSignal userSignal h =
     (let (controller, h0) = new_AbortController h;
          onAbort = OnAbort controller;
          h1 = (if aborted (sources h0 timeoutSignal) then controller_abort controller None h0
                else source_add timeoutSignal onAbort h0);
          h2 = (case userSignal of
                  None \<Rightarrow> h1
                | Some u \<Rightarrow>
                    if aborted (sources h1 u) then controller_abort controller None h1
                    else source_add u onAbort h1);
          h3 = controller_add controller (Cleanup timeoutSignal userSignal onAbort) h2
      in (controller, h3))"

text \<open>\<open>mergeSignals\<close> (lines 598 to 630), the composer of the \<open>tryRequest\<close> variant.\<close>

definition mergeSignals :: "nat list \<Rightarrow> heap \<Rightarrow> nat \<times> heap" where
  "mergeSignals signals h =
     (let (controller, h0) = new_AbortController h;
          onAbort = OnAbortReason controller;
          cleanup = CleanupAll signals onAbort;
          h1 = fold (\<lambda>signal hh.
                       if aborted (sources hh signal)
                       then controller_abort controller (reason (sources hh signal)) hh
                       else source_add signal onAbort hh)
                    signals h0;
          h2 = (if aborted (controllers h1 controller) then run_cleanup cleanup h1
                else controller_add controller cleanup h1)
      in (controller, h2))"

subsection \<open>Heaps for the scenarios\<close>

text \<open>
  Signal 0 is the signal of \<open>AbortSignal.timeout\<close>, signal 1 the user's. In
  \<open>user_aborted\<close> the caller has aborted the user signal with the reason \<open>"stop"\<close>
  before the request is sent; in \<open>both_pending\<close> no signal has fired.
\<close>

definition pending_signal :: "'l abort_signal" where
  "pending_signal = \<lparr>aborted = False, reason = None, listeners = []\<rparr>"

definition both_pending :: heap where
  "both_pending =
     \<lparr>sources = (\<lambda>s. pending_signal), controllers = (\<lambda>c. pending_signal), next_controller = 0\<rparr>"

definition user_aborted :: heap where
  "user_aborted =
     both_pending\<lparr>sources := (sources both_pending)
        (1 := \<lparr>aborted = True, reason = Some (StringValue ''stop''), listeners = []\<rparr>)\<rparr>"

definition timeout_reason :: js_value where
  "timeout_reason = DOMException ''TimeoutError'' ''The operation timed out.''"

section \<open>Observations on traces and the specification's words\<close>

text \<open>What a trace shows: the transport calls, the delays, the requests built, the signals
  merged and the \<open>beforeSend\<close> calls, each in order.\<close>

definition fetches :: "event list \<Rightarrow> nat list" where
  "fetches tr = List.map_filter (\<lambda>e. case e of Fetch n \<Rightarrow> Some n | _ \<Rightarrow> None) tr"

definition new_requests :: "event list \<Rightarrow> nat list" where
  "new_requests tr = List.map_filter (\<lambda>e. case e of NewRequest n \<Rightarrow> Some n | _ \<Rightarrow> None) tr"

definition merged_signals :: "event list \<Rightarrow> nat list" where
  "merged_signals tr = List.map_filter (\<lambda>e. case e of MergeAbortSignals n t \<Rightarrow> Some n | _ \<Rightarrow> None) tr"

definition before_sends :: "event list \<Rightarrow> nat list" where
  "before_sends tr = List.map_filter (\<lambda>e. case e of BeforeSend n \<Rightarrow> Some n | _ \<Rightarrow> None) tr"

definition delays :: "event list \<Rightarrow> int list" where
  "delays tr = List.map_filter (\<lambda>e. case e of Delay d \<Rightarrow> Some d | _ \<Rightarrow> None) tr"

text \<open>The calls and the delays of a trace, in the order the engine reaches them.\<close>

definition transport_view :: "event list \<Rightarrow> event list" where
  "transport_view tr = filter (\<lambda>e. case e of Fetch n \<Rightarrow> True | Delay d \<Rightarrow> True | _ \<Rightarrow> False) tr"

text \<open>
  The delay of the specification, in its words: \<open>clamp(base * 2^(k-1), min, max)\<close>, unless
  the \<open>Retry-After\<close> header of the response parses (with \<open>parseInt\<close>) to a number of
  seconds whose thousandfold exceeds the computed backoff, in which case that larger
  delay, clamped as well, is used; a header that is absent or does not parse is ignored.
\<close>

definition clamp :: "int \<Rightarrow> int \<Rightarrow> int \<Rightarrow> int" where
  "clamp x lo hi = (if x < lo then lo else if hi < x then hi else x)"

definition spec_delay :: "int \<Rightarrow> nat \<Rightarrow> string option \<Rightarrow> int" where
  "spec_delay base k retryAfter =
     (let computed = base * 2 ^ (k - 1)
      in case Option.bind retryAfter parseInt of
           Some seconds \<Rightarrow>
             if seconds * 1000 > computed then clamp (seconds * 1000) 200 10000
             else clamp computed 200 10000
         | None \<Rightarrow> clamp computed 200 10000)"

definition retry_after_of :: "fetch_result \<Rightarrow> string option" where
  "retry_after_of res = (case res of Resolves r \<Rightarrow> headers_get (headers r) ''Retry-After'' | Rejects e \<Rightarrow> None)"

text \<open>
  Attempt \<open>n\<close> ends in the retry branch: \<open>beforeSend\<close> returned, the transport resolved
  with a response outside the success range, \<open>onResponse\<close> returned, and
  \<open>shouldRetryRequest\<close> holds.
\<close>

definition retries_at :: "builder \<Rightarrow> nat \<Rightarrow> bool" where
  "retries_at b n =
     (call_hook (beforeSend b) n = None \<and>
      (case fetch b n of
         Rejects e \<Rightarrow> False
       | Resolves r \<Rightarrow>
           call_hook (onResponse b) n = None \<and> \<not> ok r \<and>
           shouldRetryRequest (new_Request (http_method b) n) r (int n) (retry_of b)))"

text \<open>
  The events of one attempt in the specification's order: the attempt merges its signal
  and builds its request, \<open>beforeSend\<close> (when configured) is awaited on that request,
  then comes the transport call, then \<open>onResponse\<close> (when configured) with the response
  of that call. A hook that throws, or a transport call that rejects, ends the attempt
  there. The retry decision follows: the warning and the delay of the specification.
  \<open>spec_trace b n j\<close> is the trace of attempts \<open>n\<close> to \<open>n + j\<close>, with \<open>j\<close> retries.
\<close>

definition attempt_events :: "builder \<Rightarrow> nat \<Rightarrow> event list" where
  "attempt_events b n =
     [MergeAbortSignals n (timeout_of b), NewRequest n]
     @ (case beforeSend b of None \<Rightarrow> [] | Some h \<Rightarrow> [BeforeSend n])
     @ (case call_hook (beforeSend b) n of
          Some thrown \<Rightarrow> []
        | None \<Rightarrow>
            Fetch n #
            (case fetch b n of
               Rejects e \<Rightarrow> []
             | Resolves r \<Rightarrow> (case onResponse b of None \<Rightarrow> [] | Some h \<Rightarrow> [OnResponse n r])))"

definition retry_events :: "builder \<Rightarrow> nat \<Rightarrow> event list" where
  "retry_events b n =
     (let d = spec_delay (retryDelay_of b) n (retry_after_of (fetch b n))
      in case fetch b n of
           Rejects e \<Rightarrow> []
         | Resolves r \<Rightarrow> [Warn n (retry_of b) (status r) d, Delay d])"

fun spec_trace :: "builder \<Rightarrow> nat \<Rightarrow> nat \<Rightarrow> event list" where
  "spec_trace b n 0 = attempt_events b n"
| "spec_trace b n (Suc j) = attempt_events b n @ retry_events b n @ spec_trace b (Suc n) j"

text \<open>
  Calls and delays as the specification lays them out from call \<open>k\<close> on, with \<open>j\<close>
  retries: call \<open>k\<close>, the delay computed from \<open>k\<close> and the response of call \<open>k\<close>, call
  \<open>k + 1\<close>, and so on.
\<close>

fun spec_calls_and_delays :: "builder \<Rightarrow> nat \<Rightarrow> nat \<Rightarrow> event list" where
  "spec_calls_and_delays b k 0 = [Fetch k]"
| "spec_calls_and_delays b k (Suc j) =
     Fetch k # Delay (spec_delay (retryDelay_of b) k (retry_after_of (fetch b k)))
     # spec_calls_and_delays b (Suc k) j"

subsection \<open>Scenarios\<close>

definition plain_response :: "int \<Rightarrow> response" where
  "plain_response st = \<lparr>status = st, headers = [], body = []\<rparr>"

text \<open>Policy \<open>{timeout: 5000, retry: 3, retryDelay: 100}\<close>, \<open>GET\<close>; the transport answers
  503 on attempts 1 and 2 and 200 from attempt 3 on.\<close>

definition recovering :: builder where
  "recovering =
     \<lparr>http_method = ''GET'',
      fetch = (\<lambda>n. if n < 3 then Resolves (plain_response 503) else Resolves (plain_response 200)),
      retryDelay = Some 100, timeout = Some 5000,
      beforeSend = None, onResponse = None, retry = Some 3\<rparr>"

text \<open>\<open>retry: 2\<close>, \<open>GET\<close>; the transport rejects every call with the \<open>TypeError\<close> of a
  failed connection.\<close>

definition network_down :: builder where
  "network_down =
     \<lparr>http_method = ''GET'', fetch = (\<lambda>n. Rejects (TypeError ''Failed to fetch'')),
      retryDelay = None, timeout = None,
      beforeSend = None, onResponse = None, retry = Some 2\<rparr>"

text \<open>\<open>retry: 3\<close>, \<open>GET\<close>; every transport call is cancelled.\<close>

definition cancelled :: builder where
  "cancelled =
     \<lparr>http_method = ''GET'',
      fetch = (\<lambda>n. Rejects (DOMException ''AbortError'' ''The operation was aborted.'')),
      retryDelay = None, timeout = None,
      beforeSend = None, onResponse = None, retry = Some 3\<rparr>"

text \<open>\<open>{retry: 3, retryDelay: 100}\<close>, \<open>GET\<close>; the transport answers 429 with the given
  \<open>Retry-After\<close> header on attempt 1 and 200 afterwards.\<close>

definition rate_limited :: "string \<Rightarrow> builder" where
  "rate_limited retryAfter =
     \<lparr>http_method = ''GET'',
      fetch = (\<lambda>n. if n < 2
                   then Resolves \<lparr>status = 429, headers = [(''Retry-After'', retryAfter)], body = []\<rparr>
                   else Resolves (plain_response 200)),
      retryDelay = Some 100, timeout = None,
      beforeSend = None, onResponse = None, retry = Some 3\<rparr>"

text \<open>The default policy (no \<open>retry\<close> option), \<open>GET\<close>; the transport always answers 503.\<close>

definition always_503 :: builder where
  "always_503 =
     \<lparr>http_method = ''GET'', fetch = (\<lambda>n. Resolves (plain_response 503)),
      retryDelay = None, timeout = None,
      beforeSend = None, onResponse = None, retry = None\<rparr>"

text \<open>\<open>retry: 5\<close>, \<open>POST\<close>; the transport always answers 503.\<close>

definition posting :: builder where
  "posting =
     \<lparr>http_method = ''POST'', fetch = (\<lambda>n. Resolves (plain_response 503)),
      retryDelay = None, timeout = None,
      beforeSend = None, onResponse = None, retry = Some 5\<rparr>"

text \<open>The recovering scenario with the builder's method spelt in lower case, as the
  exported \<open>Builder\<close> accepts it.\<close>

definition lower_case :: builder where
  "lower_case = recovering\<lparr>http_method := ''get''\<rparr>"

text \<open>The recovering scenario with both hooks configured; they return normally.\<close>

definition hooked :: builder where
  "hooked = recovering\<lparr>beforeSend := Some (\<lambda>n. None), onResponse := Some (\<lambda>n. None)\<rparr>"

subsection \<open>Notions for \<open>tryRequest\<close>\<close>

text \<open>The exceptions the \<open>catch\<close> block of \<open>tryRequest\<close> retries on, and the events of
  one attempt up to its transport call.\<close>

definition retryable_exception :: "js_value \<Rightarrow> bool" where
  "retryable_exception err =
     (case err of
        StringValue e \<Rightarrow> string_includes e TIMEOUT_MESSAGE
      | TypeError msg \<Rightarrow> string_includes msg ''Failed to fetch.''
      | _ \<Rightarrow> False)"

definition tryRequest_retries :: "request_context \<Rightarrow> nat \<Rightarrow> bool" where
  "tryRequest_retries ctx n =
     (int n < retries_of ctx \<and>
      (case fetch ctx n of Rejects err \<Rightarrow> retryable_exception err | Resolves r \<Rightarrow> False))"

definition tryRequest_pre :: "request_context \<Rightarrow> nat \<Rightarrow> event list" where
  "tryRequest_pre ctx n = [SetTimeout n (ctx_timeout ctx), MergeSignals n, NewRequest n, Fetch n]"

text \<open>\<open>retries: 3\<close>, a transport that always answers 503; and \<open>retries: 2\<close>, a transport
  whose calls are all aborted by the timeout.\<close>

definition refusing :: request_context where
  "refusing =
     \<lparr>http_method = ''GET'', fetch = (\<lambda>n. Resolves (plain_response 503)),
      retryDelay = Some 100, timeout = None, retries = Some 3\<rparr>"

definition timing_out :: request_context where
  "timing_out =
     \<lparr>http_method = ''GET'', fetch = (\<lambda>n. Rejects (StringValue ''Request timed out'')),
      retryDelay = Some 100, timeout = None, retries = Some 2\<rparr>"

subsection \<open>Notions for \<open>#pathname\<close>\<close>

text \<open>
  The specification's words for one segment: a number is stringified as it is; a string
  is trimmed, loses at most one leading and at most one trailing slash, and is dropped
  when nothing is left; \<open>null\<close> and \<open>undefined\<close> are skipped.
\<close>

definition spec_piece :: "segment \<Rightarrow> string option" where
  "spec_piece seg =
     (case seg of
        NumberSegment n \<Rightarrow> Some (String_number n)
      | StringSegment s \<Rightarrow>
          (let t = trim s;
               t1 = (case t of [] \<Rightarrow> [] | c # rest \<Rightarrow> if c = CHR ''/'' then rest else t);
               t2 = (if t1 \<noteq> [] \<and> last t1 = CHR ''/'' then butlast t1 else t1)
           in if t2 = [] then None else Some t2)
      | NullSegment \<Rightarrow> None
      | UndefinedSegment \<Rightarrow> None)"

definition spec_pieces :: "segment list \<Rightarrow> string list" where
  "spec_pieces path = List.map_filter spec_piece path"

section \<open>Lemmas about \<open>run\<close>\<close>

lemma built_by_new_Request [simp]: "built_by (new_Request m n) = n"
  by (simp add: new_Request_def)

lemma request_method_new_Request [simp]:
  "request_method (new_Request m n) = normalize_method m"
  by (simp add: new_Request_def)

lemma normalize_method_GET [simp]: "normalize_method ''GET'' = ''GET''"
  by code_simp

lemma normalize_method_get [simp]: "normalize_method ''get'' = ''GET''"
  by code_simp

lemma normalize_method_POST [simp]: "normalize_method ''POST'' = ''POST''"
  by code_simp

lemma to_upper_GET: "map to_upper ''GET'' = ''GET''"
  by code_simp

lemma normalize_method_eq_GET:
  "normalize_method m = ''GET'' \<longleftrightarrow> map to_upper m = ''GET''"
proof
  assume a: "normalize_method m = ''GET''"
  show "map to_upper m = ''GET''"
  proof (cases "map to_upper m \<in> set [''DELETE'', ''GET'', ''HEAD'', ''OPTIONS'', ''POST'', ''PUT'']")
    case True
    with a show ?thesis by (simp add: normalize_method_def Let_def)
  next
    case False
    with a have "m = ''GET''" by (simp add: normalize_method_def Let_def)
    then show ?thesis by (simp only: to_upper_GET)
  qed
next
  assume "map to_upper m = ''GET''"
  then show "normalize_method m = ''GET''"
    by (simp add: normalize_method_def Let_def)
qed

lemma parseInt_Nil: "parseInt [] = None"
  by (simp add: parseInt_def)

lemma backoffDelay_spec:
  "backoffDelay base k r = spec_delay base k (headers_get (headers r) ''Retry-After'')"
  by (cases "headers_get (headers r) ''Retry-After''")
     (auto simp: backoffDelay_def spec_delay_def clamp_def Let_def MIN_RETRY_DELAY_def
        MAX_RETRY_DELAY_def parseInt_Nil split: option.splits)

lemma retries_at_less: "retries_at b n \<Longrightarrow> int n < retry_of b"
  by (auto simp: retries_at_def shouldRetryRequest_def split: fetch_result.splits)

lemma run_retry:
  assumes "retries_at b n"
  shows "run b n = (attempt_events b n @ retry_events b n @ fst (run b (Suc n)),
                    case snd (run b (Suc n)) of Inl err \<Rightarrow> Inl (handleError err) | Inr r \<Rightarrow> Inr r)"
  using assms
  by (subst run.simps)
     (auto simp: retries_at_def attempt_events_def retry_events_def Let_def backoffDelay_spec
        retry_after_of_def split: fetch_result.splits option.splits)

lemma run_stop:
  assumes "\<not> retries_at b n"
  shows "fst (run b n) = attempt_events b n"
  using assms
  by (subst run.simps)
     (auto simp: retries_at_def attempt_events_def Let_def call_hook_def
        split: fetch_result.splits option.splits)

lemma run_induct [case_names attempt]:
  assumes "\<And>n. (retries_at b n \<Longrightarrow> P (Suc n)) \<Longrightarrow> P n"
  shows "P n"
proof (induction "nat (retry_of b - int n)" arbitrary: n rule: less_induct)
  case less
  show ?case
  proof (rule assms)
    assume "retries_at b n"
    then have "int n < retry_of b" by (rule retries_at_less)
    then have "nat (retry_of b - int (Suc n)) < nat (retry_of b - int n)" by simp
    then show "P (Suc n)" by (rule less)
  qed
qed

lemma map_filter_append: "List.map_filter f (xs @ ys) = List.map_filter f xs @ List.map_filter f ys"
  by (simp add: List.map_filter_def)

lemma delays_append: "delays (xs @ ys) = delays xs @ delays ys"
  by (simp add: delays_def map_filter_append)

lemma fetches_append: "fetches (xs @ ys) = fetches xs @ fetches ys"
  by (simp add: fetches_def map_filter_append)

lemma transport_view_append: "transport_view (xs @ ys) = transport_view xs @ transport_view ys"
  by (simp add: transport_view_def)

lemma delays_attempt_events: "delays (attempt_events b n) = []"
  by (simp add: delays_def attempt_events_def map_filter_append 
      split: option.splits fetch_result.splits)

lemma fetches_attempt_events:
  "fetches (attempt_events b n) = (if call_hook (beforeSend b) n = None then [n] else [])"
  by (simp add: fetches_def attempt_events_def map_filter_append 
      split: option.splits fetch_result.splits)

lemma transport_view_attempt_events:
  "transport_view (attempt_events b n) = (if call_hook (beforeSend b) n = None then [Fetch n] else [])"
  by (simp add: transport_view_def attempt_events_def split: option.splits fetch_result.splits)

lemma retries_at_resolves:
  "retries_at b n \<Longrightarrow> \<exists>r. fetch b n = Resolves r \<and> \<not> ok r \<and> status r \<in> set RETRY_CODE_LIST"
  by (auto simp: retries_at_def shouldRetryRequest_def split: fetch_result.splits)

lemma delays_retry_events:
  "retries_at b n \<Longrightarrow>
     delays (retry_events b n) = [spec_delay (retryDelay_of b) n (retry_after_of (fetch b n))]"
  by (auto simp: retries_at_def retry_events_def delays_def Let_def
      split: fetch_result.splits)

lemma fetches_retry_events: "fetches (retry_events b n) = []"
  by (simp add: retry_events_def fetches_def  Let_def split: fetch_result.splits)

lemma transport_view_retry_events:
  "retries_at b n \<Longrightarrow>
     transport_view (retry_events b n) =
       [Delay (spec_delay (retryDelay_of b) n (retry_after_of (fetch b n)))]"
  by (auto simp: retries_at_def retry_events_def transport_view_def Let_def
      split: fetch_result.splits)

lemma run_trace: "fst (run b n) = spec_trace b n (length (delays (fst (run b n))))"
proof (induction n rule: run_induct [of b])
  case (attempt n)
  show ?case
  proof (cases "retries_at b n")
    case True
    with attempt have IH: "fst (run b (Suc n)) = spec_trace b (Suc n) (length (delays (fst (run b (Suc n)))))"
      by simp
    have len: "length (delays (fst (run b n))) = Suc (length (delays (fst (run b (Suc n)))))"
      using True by (simp add: run_retry delays_append delays_attempt_events delays_retry_events)
    show ?thesis
      unfolding len using True IH by (simp add: run_retry)
  next
    case False
    then show ?thesis
      by (simp add: run_stop delays_attempt_events)
  qed
qed

lemma run_fetch_bound: "int (length (fetches (fst (run b n)))) \<le> max 1 (retry_of b - int n + 1)"
proof (induction n rule: run_induct [of b])
  case (attempt n)
  show ?case
  proof (cases "retries_at b n")
    case True
    with attempt have IH: "int (length (fetches (fst (run b (Suc n))))) \<le> max 1 (retry_of b - int (Suc n) + 1)"
      by simp
    from True have "int n < retry_of b" by (rule retries_at_less)
    with IH True show ?thesis
      by (simp add: run_retry fetches_append fetches_attempt_events fetches_retry_events)
  next
    case False
    then show ?thesis
      by (auto simp: run_stop fetches_attempt_events)
  qed
qed

lemma run_view:
  assumes hooks: "\<And>k. call_hook (beforeSend b) k = None"
  shows "transport_view (fst (run b n)) = spec_calls_and_delays b n (length (delays (fst (run b n))))"
proof (induction n rule: run_induct [of b])
  case (attempt n)
  show ?case
  proof (cases "retries_at b n")
    case True
    with attempt have IH: "transport_view (fst (run b (Suc n))) =
        spec_calls_and_delays b (Suc n) (length (delays (fst (run b (Suc n)))))"
      by simp
    have len: "length (delays (fst (run b n))) = Suc (length (delays (fst (run b (Suc n)))))"
      using True by (simp add: run_retry delays_append delays_attempt_events delays_retry_events)
    show ?thesis
      unfolding len using True IH hooks
      by (simp add: run_retry transport_view_append transport_view_attempt_events
          transport_view_retry_events)
  next
    case False
    then show ?thesis
      using hooks by (simp add: run_stop delays_attempt_events transport_view_attempt_events)
  qed
qed

lemma run_retried_attempts:
  "n \<le> k \<Longrightarrow> k < n + length (delays (fst (run b n))) \<Longrightarrow> retries_at b k"
proof (induction n rule: run_induct [of b])
  case (attempt n)
  show ?case
  proof (cases "retries_at b n")
    case True
    have len: "length (delays (fst (run b n))) = Suc (length (delays (fst (run b (Suc n)))))"
      using True by (simp add: run_retry delays_append delays_attempt_events delays_retry_events)
    show ?thesis
    proof (cases "k = n")
      case True
      with \<open>retries_at b n\<close> show ?thesis by simp
    next
      case False
      with attempt.prems len have "Suc n \<le> k" "k < Suc n + length (delays (fst (run b (Suc n))))"
        by simp_all
      with attempt.IH [OF True] show ?thesis by simp
    qed
  next
    case False
    with attempt.prems show ?thesis
      by (simp add: run_stop delays_attempt_events)
  qed
qed

lemma new_requests_append: "new_requests (xs @ ys) = new_requests xs @ new_requests ys"
  by (simp add: new_requests_def map_filter_append)

lemma new_requests_attempt_events: "new_requests (attempt_events b n) = [n]"
  by (simp add: new_requests_def attempt_events_def map_filter_append
      split: option.splits fetch_result.splits)

lemma run_rejects:
  assumes "call_hook (beforeSend b) n = None" and "fetch b n = Rejects e"
  shows "run b n = (attempt_events b n, Inl (handleError e))"
  using assms
  by (subst run.simps) (auto simp: attempt_events_def Let_def split: option.splits)

lemma run_resolves_ok:
  assumes "call_hook (beforeSend b) n = None" and "fetch b n = Resolves r"
    and "call_hook (onResponse b) n = None" and "ok r"
  shows "run b n = (attempt_events b n, Inr r)"
  using assms
  by (subst run.simps) (auto simp: attempt_events_def Let_def split: option.splits)

lemma run_server_error:
  assumes "call_hook (beforeSend b) n = None" and "fetch b n = Resolves r"
    and "call_hook (onResponse b) n = None" and "\<not> ok r"
    and "\<not> shouldRetryRequest (new_Request (http_method b) n) r (int n) (retry_of b)"
  shows "run b n = (attempt_events b n, Inl (ServerError r))"
  using assms
  by (subst run.simps) (auto simp: attempt_events_def Let_def handleError_def split: option.splits)

lemma shouldRetryRequest_iff:
  "shouldRetryRequest req resp n N \<longleftrightarrow>
     request_method req = ''GET'' \<and> status resp \<in> {408, 409, 425, 429, 500, 502, 503, 504} \<and> n < N"
  by (auto simp: shouldRetryRequest_def RETRY_CODE_LIST_def)

lemma run_not_GET:
  assumes "normalize_method (http_method b) \<noteq> ''GET''"
  shows "fst (run b n) = attempt_events b n"
  by (rule run_stop) (use assms in \<open>auto simp: retries_at_def shouldRetryRequest_def split: fetch_result.splits\<close>)

lemma backoffDelay_plain:
  "backoffDelay base k (plain_response st) = min 10000 (max 200 (base * 2 ^ (k - 1)))"
  by (simp add: backoffDelay_def plain_response_def headers_get_def Let_def
      MIN_RETRY_DELAY_def MAX_RETRY_DELAY_def)

lemma recovering_retries_at: "retries_at recovering 1" "retries_at recovering 2"
  by (simp_all add: retries_at_def recovering_def call_hook_def ok_def plain_response_def
      shouldRetryRequest_def retry_of_def RETRY_CODE_LIST_def)

lemma recovering_attempt_events:
  "attempt_events recovering n = [MergeAbortSignals n 5000, NewRequest n, Fetch n]"
  by (simp add: attempt_events_def recovering_def call_hook_def timeout_of_def)

lemma recovering_retry_events:
  "retry_events recovering 1 = [Warn 1 3 503 200, Delay 200]"
  "retry_events recovering 2 = [Warn 2 3 503 200, Delay 200]"
  by (simp_all add: retry_events_def recovering_def retry_after_of_def plain_response_def
      headers_get_def spec_delay_def clamp_def retry_of_def retryDelay_of_def Let_def)

lemma recovering_run_3: "run recovering 3 = (attempt_events recovering 3, Inr (plain_response 200))"
  by (rule run_resolves_ok)
     (simp_all add: recovering_def call_hook_def ok_def plain_response_def)

lemma recovering_run:
  "run recovering 1 =
     ([MergeAbortSignals 1 5000, NewRequest 1, Fetch 1, Warn 1 3 503 200, Delay 200,
       MergeAbortSignals 2 5000, NewRequest 2, Fetch 2, Warn 2 3 503 200, Delay 200,
       MergeAbortSignals 3 5000, NewRequest 3, Fetch 3],
      Inr (plain_response 200))"
proof -
  have s: "Suc 1 = 2" "Suc 2 = 3" by simp_all
  have "run recovering 2 =
      (attempt_events recovering 2 @ retry_events recovering 2 @ attempt_events recovering 3,
       Inr (plain_response 200))"
    by (simp only: run_retry [OF recovering_retries_at(2)] s recovering_run_3 fst_conv snd_conv
        sum.case)
  then have "run recovering 1 =
      (attempt_events recovering 1 @ retry_events recovering 1 @
       attempt_events recovering 2 @ retry_events recovering 2 @ attempt_events recovering 3,
       Inr (plain_response 200))"
    by (simp only: run_retry [OF recovering_retries_at(1)] s fst_conv snd_conv sum.case)
  then show ?thesis
    by (simp only: recovering_attempt_events recovering_retry_events append.simps)
qed

lemma recovering_response:
  "Builder_response recovering =
     ([MergeAbortSignals 1 5000, NewRequest 1, Fetch 1, Warn 1 3 503 200, Delay 200,
       MergeAbortSignals 2 5000, NewRequest 2, Fetch 2, Warn 2 3 503 200, Delay 200,
       MergeAbortSignals 3 5000, NewRequest 3, Fetch 3],
      Inr (plain_response 200))"
  unfolding Builder_response_def by (rule recovering_run)

lemma recovering_hooks: "call_hook (beforeSend recovering) k = None"
  by (simp add: recovering_def call_hook_def)

lemma rate_limited_retries_at:
  "retries_at (rate_limited v) 1" "\<not> retries_at (rate_limited v) 2"
  by (simp_all add: retries_at_def rate_limited_def call_hook_def ok_def plain_response_def
      shouldRetryRequest_def retry_of_def RETRY_CODE_LIST_def)

lemma rate_limited_delays: "length (delays (fst (Builder_response (rate_limited v)))) = 1"
proof -
  have s: "Suc 1 = 2" by simp
  have 2: "delays (fst (run (rate_limited v) 2)) = []"
    by (simp only: run_stop [OF rate_limited_retries_at(2)] delays_attempt_events)
  have 1: "length (delays (fst (run (rate_limited v) 1))) = Suc 0"
    by (simp only: run_retry [OF rate_limited_retries_at(1)] s delays_append delays_attempt_events
        delays_retry_events [OF rate_limited_retries_at(1)] 2 fst_conv append_Nil append_Nil2
        list.size length_Cons)
  show ?thesis
    unfolding Builder_response_def 1 by simp
qed

lemma rate_limited_hooks: "\<forall>k. call_hook (beforeSend (rate_limited v)) k = None"
  by (simp add: rate_limited_def call_hook_def)

lemma rate_limited_spec:
  "spec_calls_and_delays (rate_limited ''5'') 1 1 = [Fetch 1, Delay 5000, Fetch 2]"
  "spec_calls_and_delays (rate_limited ''soon'') 1 1 = [Fetch 1, Delay 200, Fetch 2]"
  by (simp_all add: rate_limited_def retryDelay_of_def retry_after_of_def headers_get_def
      spec_delay_def clamp_def parseInt_def is_white_space_def is_digit_def decimal_value_def
      digit_value_def)

section \<open>The claims about \<open>Builder.response\<close>\<close>

subsection \<open>Transport exceptions (C1)\<close>

text \<open>
  Claim C1, as amended. When the transport call of attempt \<open>n\<close> rejects, that attempt is
  the last one whatever \<open>retry\<close> is: its promise rejects with the value
  \<open>#handleError\<close> makes of the cause, the trace holds the single transport call of attempt
  \<open>n\<close>, no further request is built and no delay is awaited. A cancellation-class cause
  (name \<open>AbortError\<close>) gives an \<open>AbortError\<close>, a network-class cause (names
  \<open>NetworkError\<close>, \<open>ConnectionRefused\<close>, \<open>TypeError\<close>) a \<open>NetworkError\<close>.
\<close>

theorem transport_rejection_not_retried:
  assumes "call_hook (beforeSend b) n = None" and "fetch b n = Rejects e"
  shows "snd (run b n) = Inl (handleError e) \<and>
         fetches (fst (run b n)) = [n] \<and>
         new_requests (fst (run b n)) = [n] \<and>
         delays (fst (run b n)) = [] \<and>
         (error_name e = Some ''AbortError'' \<longrightarrow> handleError e = AbortError (error_message e) e) \<and>
         (error_name e \<in> {Some ''NetworkError'', Some ''ConnectionRefused'', Some ''TypeError''} \<longrightarrow>
            handleError e = NetworkError (error_message e) e)"
proof -
  have "run b n = (attempt_events b n, Inl (handleError e))"
    using assms by (rule run_rejects)
  moreover have "error_name e = Some ''AbortError'' \<longrightarrow> handleError e = AbortError (error_message e) e"
    by (cases e) (simp_all add: handleError_def)
  moreover have "error_name e \<in> {Some ''NetworkError'', Some ''ConnectionRefused'', Some ''TypeError''} \<longrightarrow>
            handleError e = NetworkError (error_message e) e"
    by (cases e) (auto simp: handleError_def)
  ultimately show ?thesis
    using assms(1)
    by (simp add: fetches_attempt_events new_requests_attempt_events delays_attempt_events)
qed

text \<open>
  Witness for C1: the scenario with \<open>retry: 2\<close> and a transport that always fails to
  connect, and the scenario with \<open>retry: 3\<close> and a cancelled transport call.
\<close>

theorem transport_rejection_not_retried_witness:
  "(call_hook (beforeSend network_down) 1 = None \<and>
    fetch network_down 1 = Rejects (TypeError ''Failed to fetch'') \<and>
    int 1 < retry_of network_down) \<and>
   snd (run network_down 1) = Inl (NetworkError ''Failed to fetch'' (TypeError ''Failed to fetch'')) \<and>
   fetches (fst (run network_down 1)) = [1] \<and>
   delays (fst (run network_down 1)) = [] \<and>
   (call_hook (beforeSend cancelled) 1 = None \<and>
    fetch cancelled 1 = Rejects (DOMException ''AbortError'' ''The operation was aborted.'') \<and>
    int 1 < retry_of cancelled) \<and>
   snd (run cancelled 1) =
     Inl (AbortError ''The operation was aborted.''
            (DOMException ''AbortError'' ''The operation was aborted.'')) \<and>
   fetches (fst (run cancelled 1)) = [1] \<and>
   delays (fst (run cancelled 1)) = []"
proof -
  have h1: "call_hook (beforeSend network_down) 1 = None"
    by (simp add: network_down_def call_hook_def)
  have h2: "fetch network_down 1 = Rejects (TypeError ''Failed to fetch'')"
    by (simp add: network_down_def)
  have h3: "int 1 < retry_of network_down"
    by (simp add: network_down_def retry_of_def)
  have k1: "call_hook (beforeSend cancelled) 1 = None"
    by (simp add: cancelled_def call_hook_def)
  have k2: "fetch cancelled 1 = Rejects (DOMException ''AbortError'' ''The operation was aborted.'')"
    by (simp add: cancelled_def)
  have k3: "int 1 < retry_of cancelled"
    by (simp add: cancelled_def retry_of_def)
  show ?thesis
    using h1 h2 h3 k1 k2 k3 transport_rejection_not_retried [OF h1 h2]
      transport_rejection_not_retried [OF k1 k2]
    by simp
qed

text \<open>
  Counterexample to claim C1 as stated: with \<open>retry: 2\<close>, a first attempt
  (\<open>1 < maxAttempts\<close>) whose transport call rejects with a network-class cause is not
  followed by a second one; the \<open>NetworkError\<close> is there after one transport call.
\<close>

theorem network_rejection_retry_counterexample:
  "int 1 < retry_of network_down \<and>
   fetch network_down 1 = Rejects (TypeError ''Failed to fetch'') \<and>
   handleError (TypeError ''Failed to fetch'') = NetworkError ''Failed to fetch'' (TypeError ''Failed to fetch'') \<and>
   Builder_response network_down =
     ([MergeAbortSignals 1 10000, NewRequest 1, Fetch 1],
      Inl (NetworkError ''Failed to fetch'' (TypeError ''Failed to fetch''))) \<and>
   2 \<notin> set (fetches (fst (Builder_response network_down)))"
proof -
  have r: "run network_down 1 =
      (attempt_events network_down 1, Inl (handleError (TypeError ''Failed to fetch'')))"
    by (rule run_rejects) (simp_all add: network_down_def call_hook_def)
  have a: "attempt_events network_down 1 = [MergeAbortSignals 1 10000, NewRequest 1, Fetch 1]"
    by (simp add: attempt_events_def network_down_def call_hook_def timeout_of_def)
  show ?thesis
    unfolding Builder_response_def r a
    by (simp add: network_down_def retry_of_def handleError_def fetches_def)
qed

subsection \<open>Calls and delays (C2)\<close>

text \<open>
  Claim C2, as amended. With \<open>maxAttempts = N\<close> the engine makes at most \<open>max(1, N)\<close>
  transport calls. When \<open>beforeSend\<close> returns normally, calls and delays alternate in the
  trace, starting with call 1, and the delay between call \<open>k\<close> and call \<open>k + 1\<close> is the
  one the specification words: \<open>clamp(retryDelay * 2^(k-1), 200, 10000)\<close>, unless the
  \<open>Retry-After\<close> header of response \<open>k\<close> parses to a number of seconds whose thousandfold
  exceeds the computed backoff, which is then clamped and awaited instead; a value that
  does not parse is ignored. Every call that is followed by a delay resolved with a
  response outside the success range whose status is in the retryable list.
\<close>

theorem retry_calls_and_delays:
  "int (length (fetches (fst (Builder_response b)))) \<le> max 1 (retry_of b) \<and>
   ((\<forall>k. call_hook (beforeSend b) k = None) \<longrightarrow>
      transport_view (fst (Builder_response b)) =
        spec_calls_and_delays b 1 (length (delays (fst (Builder_response b)))) \<and>
      (\<forall>k. 1 \<le> k \<and> k \<le> length (delays (fst (Builder_response b))) \<longrightarrow>
           (\<exists>r. fetch b k = Resolves r \<and> \<not> ok r \<and> status r \<in> set RETRY_CODE_LIST)))"
proof (intro conjI impI allI)
  show "int (length (fetches (fst (Builder_response b)))) \<le> max 1 (retry_of b)"
    using run_fetch_bound [of b 1] by (simp add: Builder_response_def)
next
  assume "\<forall>k. call_hook (beforeSend b) k = None"
  then show "transport_view (fst (Builder_response b)) =
      spec_calls_and_delays b 1 (length (delays (fst (Builder_response b))))"
    unfolding Builder_response_def by (intro run_view) simp
next
  fix k
  assume "1 \<le> k \<and> k \<le> length (delays (fst (Builder_response b)))"
  then have "retries_at b k"
    unfolding Builder_response_def by (intro run_retried_attempts [of 1]) simp_all
  then show "\<exists>r. fetch b k = Resolves r \<and> \<not> ok r \<and> status r \<in> set RETRY_CODE_LIST"
    by (rule retries_at_resolves)
qed

text \<open>
  Witness for C2: the recovering scenario, two delays between three calls; a 429 with
  \<open>Retry-After: 5\<close>, where 5000 ms are awaited instead of the computed 100 ms; and a 429
  with \<open>Retry-After: soon\<close>, which is ignored.
\<close>

theorem retry_calls_and_delays_witness:
  "(\<forall>k. call_hook (beforeSend recovering) k = None) \<and>
   int (length (fetches (fst (Builder_response recovering)))) \<le> max 1 3 \<and>
   transport_view (fst (Builder_response recovering)) =
     [Fetch 1, Delay 200, Fetch 2, Delay 200, Fetch 3] \<and>
   (\<exists>r. fetch recovering 2 = Resolves r \<and> \<not> ok r \<and> status r \<in> set RETRY_CODE_LIST) \<and>
   (\<forall>k. call_hook (beforeSend (rate_limited ''5'')) k = None) \<and>
   transport_view (fst (Builder_response (rate_limited ''5''))) = [Fetch 1, Delay 5000, Fetch 2] \<and>
   (\<forall>k. call_hook (beforeSend (rate_limited ''soon'')) k = None) \<and>
   transport_view (fst (Builder_response (rate_limited ''soon''))) = [Fetch 1, Delay 200, Fetch 2]"
proof -
  have d: "delays (fst (Builder_response recovering)) = [200, 200]"
    by (simp add: recovering_response delays_def)
  have e: "spec_delay (retryDelay_of recovering) (Suc 0) (retry_after_of (fetch recovering (Suc 0))) = 200"
    "spec_delay (retryDelay_of recovering) (Suc (Suc 0))
       (retry_after_of (fetch recovering (Suc (Suc 0)))) = 200"
    by (simp_all add: recovering_def retryDelay_of_def retry_after_of_def
        plain_response_def headers_get_def spec_delay_def clamp_def)
  have r: "retry_of recovering = 3"
    by (simp add: recovering_def retry_of_def)
  have 1: "(\<forall>k. call_hook (beforeSend recovering) k = None) \<and>
   int (length (fetches (fst (Builder_response recovering)))) \<le> max 1 3 \<and>
   transport_view (fst (Builder_response recovering)) =
     [Fetch 1, Delay 200, Fetch 2, Delay 200, Fetch 3] \<and>
   (\<exists>r. fetch recovering 2 = Resolves r \<and> \<not> ok r \<and> status r \<in> set RETRY_CODE_LIST)"
    using retry_calls_and_delays [of recovering] recovering_hooks
    by (simp add: d e r)
  have 2: "transport_view (fst (Builder_response (rate_limited ''5''))) = [Fetch 1, Delay 5000, Fetch 2]"
    using retry_calls_and_delays [of "rate_limited ''5''"] rate_limited_hooks [of "''5''"]
    by (simp add: rate_limited_delays rate_limited_spec [simplified])
  have 3: "transport_view (fst (Builder_response (rate_limited ''soon''))) = [Fetch 1, Delay 200, Fetch 2]"
    using retry_calls_and_delays [of "rate_limited ''soon''"] rate_limited_hooks [of "''soon''"]
    by (simp add: rate_limited_delays rate_limited_spec [simplified])
  from 1 2 3 rate_limited_hooks [of "''5''"] rate_limited_hooks [of "''soon''"]
  show ?thesis by blast
qed

text \<open>
  Counterexample to claim C2 as stated: with \<open>maxAttempts = 0\<close>, the default, a retryable
  503 response comes from one transport call, which is more than \<open>N = 0\<close> calls.
\<close>

theorem at_most_N_calls_counterexample:
  "retry_of always_503 = 0 \<and>
   fetches (fst (Builder_response always_503)) = [1] \<and>
   \<not> int (length (fetches (fst (Builder_response always_503)))) \<le> retry_of always_503"
proof -
  have "run always_503 1 = (attempt_events always_503 1, Inl (ServerError (plain_response 503)))"
    by (rule run_server_error)
       (simp_all add: always_503_def call_hook_def ok_def plain_response_def
          shouldRetryRequest_def retry_of_def)
  then show ?thesis
    by (simp add: Builder_response_def fetches_attempt_events)
       (simp add: always_503_def retry_of_def call_hook_def)
qed

subsection \<open>Classification of server statuses (C3)\<close>

text \<open>
  Claim C3. \<open>shouldRetryRequest\<close> holds exactly when the method of the request is
  \<open>GET\<close>, the status is one of 408, 409, 425, 429, 500, 502, 503, 504 and the attempt is
  below \<open>maxAttempts\<close>. The request the engine tests is the one the attempt constructed,
  whose method is \<open>GET\<close> exactly when the builder's method spells \<open>GET\<close> in any case of
  its letters. For a response outside the success range (with the hooks returning
  normally), the engine acts on that classification: a retryable outcome is followed by
  the backoff delay and attempt \<open>n + 1\<close>, any other outcome rejects with the
  \<open>ServerError\<close> that wraps the response. A request whose method is not \<open>GET\<close> is never
  retried, whatever \<open>retry\<close> is: no delay, and no request beyond the one of the attempt.
\<close>

theorem server_status_retry_classification:
  "(shouldRetryRequest req r (int n) N \<longleftrightarrow>
      request_method req = ''GET'' \<and> status r \<in> {408, 409, 425, 429, 500, 502, 503, 504} \<and>
      int n < N) \<and>
   (request_method (new_Request (http_method b) n) = ''GET'' \<longleftrightarrow>
      map to_upper (http_method b) = ''GET'') \<and>
   (call_hook (beforeSend b) n = None \<and> fetch b n = Resolves r \<and>
    call_hook (onResponse b) n = None \<and> \<not> ok r \<longrightarrow>
      (if request_method (new_Request (http_method b) n) = ''GET'' \<and>
          status r \<in> {408, 409, 425, 429, 500, 502, 503, 504} \<and> int n < retry_of b
       then run b n =
              (attempt_events b n
                 @ [Warn n (retry_of b) (status r) (backoffDelay (retryDelay_of b) n r),
                    Delay (backoffDelay (retryDelay_of b) n r)]
                 @ fst (run b (Suc n)),
               case snd (run b (Suc n)) of Inl err \<Rightarrow> Inl (handleError err) | Inr r' \<Rightarrow> Inr r')
       else run b n = (attempt_events b n, Inl (ServerError r)))) \<and>
   (request_method (new_Request (http_method b) n) \<noteq> ''GET'' \<longrightarrow>
      delays (fst (run b n)) = [] \<and> new_requests (fst (run b n)) = [n] \<and>
      length (fetches (fst (run b n))) \<le> 1)"
proof (intro conjI impI)
  show "shouldRetryRequest req r (int n) N \<longleftrightarrow>
      request_method req = ''GET'' \<and> status r \<in> {408, 409, 425, 429, 500, 502, 503, 504} \<and>
      int n < N"
    by (simp add: shouldRetryRequest_iff)
next
  show "request_method (new_Request (http_method b) n) = ''GET'' \<longleftrightarrow>
      map to_upper (http_method b) = ''GET''"
    by (simp add: normalize_method_eq_GET)
next
  assume h: "call_hook (beforeSend b) n = None \<and> fetch b n = Resolves r \<and>
    call_hook (onResponse b) n = None \<and> \<not> ok r"
  show "if request_method (new_Request (http_method b) n) = ''GET'' \<and>
          status r \<in> {408, 409, 425, 429, 500, 502, 503, 504} \<and> int n < retry_of b
       then run b n =
              (attempt_events b n
                 @ [Warn n (retry_of b) (status r) (backoffDelay (retryDelay_of b) n r),
                    Delay (backoffDelay (retryDelay_of b) n r)]
                 @ fst (run b (Suc n)),
               case snd (run b (Suc n)) of Inl err \<Rightarrow> Inl (handleError err) | Inr r' \<Rightarrow> Inr r')
       else run b n = (attempt_events b n, Inl (ServerError r))"
  proof (cases "shouldRetryRequest (new_Request (http_method b) n) r (int n) (retry_of b)")
    case True
    with h have "retries_at b n" by (simp add: retries_at_def)
    then have "run b n = (attempt_events b n @ retry_events b n @ fst (run b (Suc n)),
        case snd (run b (Suc n)) of Inl err \<Rightarrow> Inl (handleError err) | Inr r \<Rightarrow> Inr r)"
      by (rule run_retry)
    moreover have "retry_events b n =
        [Warn n (retry_of b) (status r) (backoffDelay (retryDelay_of b) n r),
         Delay (backoffDelay (retryDelay_of b) n r)]"
      using h by (simp add: retry_events_def retry_after_of_def backoffDelay_spec Let_def)
    ultimately show ?thesis
      using True by (simp add: shouldRetryRequest_iff)
  next
    case False
    with h have "run b n = (attempt_events b n, Inl (ServerError r))"
      by (simp add: run_server_error)
    with False show ?thesis
      by (simp add: shouldRetryRequest_iff)
  qed
next
  assume "request_method (new_Request (http_method b) n) \<noteq> ''GET''"
  then have "normalize_method (http_method b) \<noteq> ''GET''" by simp
  then have t: "fst (run b n) = attempt_events b n" by (rule run_not_GET)
  show "delays (fst (run b n)) = []" by (simp add: t delays_attempt_events)
  show "new_requests (fst (run b n)) = [n]" by (simp add: t new_requests_attempt_events)
  show "length (fetches (fst (run b n))) \<le> 1" by (simp add: t fetches_attempt_events)
qed

text \<open>
  Witness for C3: a retryable 503 on attempt 1 of 3; the same with the builder's method
  spelt \<open>get\<close>, which the request carries as \<open>GET\<close>; a 503 under the default policy that
  is not retryable; and a \<open>POST\<close> with \<open>retry: 5\<close>.
\<close>

theorem server_status_retry_classification_witness:
  "(call_hook (beforeSend recovering) 1 = None \<and>
    fetch recovering 1 = Resolves (plain_response 503) \<and>
    call_hook (onResponse recovering) 1 = None \<and> \<not> ok (plain_response 503)) \<and>
   fst (run recovering 1) =
     attempt_events recovering 1 @ [Warn 1 3 503 200, Delay 200] @ fst (run recovering (Suc 1)) \<and>
   (call_hook (beforeSend lower_case) 1 = None \<and>
    fetch lower_case 1 = Resolves (plain_response 503) \<and>
    call_hook (onResponse lower_case) 1 = None) \<and>
   http_method lower_case = ''get'' \<and>
   request_method (new_Request (http_method lower_case) 1) = ''GET'' \<and>
   fst (run lower_case 1) =
     attempt_events lower_case 1 @ [Warn 1 3 503 200, Delay 200] @ fst (run lower_case (Suc 1)) \<and>
   (call_hook (beforeSend always_503) 1 = None \<and>
    fetch always_503 1 = Resolves (plain_response 503) \<and>
    call_hook (onResponse always_503) 1 = None) \<and>
   run always_503 1 = (attempt_events always_503 1, Inl (ServerError (plain_response 503))) \<and>
   request_method (new_Request (http_method posting) 1) \<noteq> ''GET'' \<and>
   delays (fst (run posting 1)) = [] \<and> new_requests (fst (run posting 1)) = [1]"
proof -
  have h1: "call_hook (beforeSend recovering) 1 = None \<and>
    fetch recovering 1 = Resolves (plain_response 503) \<and>
    call_hook (onResponse recovering) 1 = None \<and> \<not> ok (plain_response 503)"
    by (simp add: recovering_def call_hook_def ok_def plain_response_def)
  have c1: "request_method (new_Request (http_method recovering) 1) = ''GET'' \<and>
      status (plain_response 503) \<in> {408, 409, 425, 429, 500, 502, 503, 504} \<and>
      int 1 < retry_of recovering"
    by (simp add: recovering_def plain_response_def retry_of_def)
  have d1: "retry_of recovering = 3" "status (plain_response 503) = 503"
    by (simp_all add: recovering_def retry_of_def plain_response_def)
  have d2: "backoffDelay (retryDelay_of recovering) 1 (plain_response 503) = 200"
    by (simp add: recovering_def retryDelay_of_def backoffDelay_plain)
  have g1: "call_hook (beforeSend lower_case) 1 = None \<and>
    fetch lower_case 1 = Resolves (plain_response 503) \<and>
    call_hook (onResponse lower_case) 1 = None \<and> \<not> ok (plain_response 503)"
    by (simp add: lower_case_def recovering_def call_hook_def ok_def plain_response_def)
  have g2: "http_method lower_case = ''get''"
    by (simp add: lower_case_def)
  have g3: "request_method (new_Request (http_method lower_case) 1) = ''GET'' \<and>
      status (plain_response 503) \<in> {408, 409, 425, 429, 500, 502, 503, 504} \<and>
      int 1 < retry_of lower_case"
    by (simp add: lower_case_def recovering_def plain_response_def retry_of_def)
  have g4: "retry_of lower_case = 3"
    "backoffDelay (retryDelay_of lower_case) 1 (plain_response 503) = 200"
    by (simp_all add: lower_case_def recovering_def retry_of_def retryDelay_of_def
        backoffDelay_plain)
  have h2: "call_hook (beforeSend always_503) 1 = None \<and>
    fetch always_503 1 = Resolves (plain_response 503) \<and>
    call_hook (onResponse always_503) 1 = None \<and> \<not> ok (plain_response 503)"
    by (simp add: always_503_def call_hook_def ok_def plain_response_def)
  have c2: "\<not> (request_method (new_Request (http_method always_503) 1) = ''GET'' \<and>
      status (plain_response 503) \<in> {408, 409, 425, 429, 500, 502, 503, 504} \<and>
      int 1 < retry_of always_503)"
    by (simp add: always_503_def retry_of_def)
  have h3: "request_method (new_Request (http_method posting) 1) \<noteq> ''GET''"
    by (simp add: posting_def)
  note t1 = server_status_retry_classification [where b = recovering and n = 1
      and r = "plain_response 503" and N = 3]
  note t2 = server_status_retry_classification [where b = always_503 and n = 1
      and r = "plain_response 503" and N = 0]
  note t3 = server_status_retry_classification [where b = posting and n = 1
      and r = "plain_response 503" and N = 5]
  note t4 = server_status_retry_classification [where b = lower_case and n = 1
      and r = "plain_response 503" and N = 3]
  from t1 h1 c1 have r1: "fst (run recovering 1) =
     attempt_events recovering 1 @ [Warn 1 3 503 200, Delay 200] @ fst (run recovering (Suc 1))"
    by (simp only: d1 d2 if_True fst_conv simp_thms)
  from t4 g1 g3 have r4: "fst (run lower_case 1) =
     attempt_events lower_case 1 @ [Warn 1 3 503 200, Delay 200] @ fst (run lower_case (Suc 1))"
    by (simp only: d1 g4 if_True fst_conv simp_thms)
  from t2 h2 c2 have r2: "run always_503 1 =
     (attempt_events always_503 1, Inl (ServerError (plain_response 503)))"
    by (simp only: if_False simp_thms)
  from t3 h3 have r3: "delays (fst (run posting 1)) = [] \<and> new_requests (fst (run posting 1)) = [1]"
    by blast
  from h1 h2 h3 g1 g2 g3 r1 r2 r3 r4 show ?thesis by blast
qed

subsection \<open>The recovering scenario (C6)\<close>

text \<open>
  Claim C6, as amended. A \<open>GET\<close> request under \<open>{timeout: 5000, retry: 3, retryDelay: 100}\<close>
  whose transport answers 503, 503, 200 resolves with the 200 response after exactly
  three transport calls and two delays, of 200 ms (the minimum retry delay) and 200 ms
  (\<open>100 * 2\<close>).
\<close>

theorem recovering_scenario:
  "http_method recovering = ''GET'' \<and> timeout_of recovering = 5000 \<and> retry_of recovering = 3 \<and>
   retryDelay_of recovering = 100 \<and>
   map (fetch recovering) [1, 2, 3] =
     [Resolves (plain_response 503), Resolves (plain_response 503), Resolves (plain_response 200)] \<and>
   Builder_response recovering =
     ([MergeAbortSignals 1 5000, NewRequest 1, Fetch 1, Warn 1 3 503 200, Delay 200,
       MergeAbortSignals 2 5000, NewRequest 2, Fetch 2, Warn 2 3 503 200, Delay 200,
       MergeAbortSignals 3 5000, NewRequest 3, Fetch 3],
      Inr (plain_response 200)) \<and>
   delays (fst (Builder_response recovering)) = [MIN_RETRY_DELAY, 100 * 2]"
  by (simp add: recovering_response delays_def MIN_RETRY_DELAY_def)
     (simp add: recovering_def timeout_of_def retry_of_def retryDelay_of_def)

text \<open>
  Counterexample to claim C6 as stated: in the scenario the first delay is 200 ms, not
  about 100 ms, since the computed backoff of 100 ms is below \<open>MIN_RETRY_DELAY\<close>.
\<close>

theorem recovering_delays_counterexample:
  "retryDelay_of recovering = 100 \<and>
   delays (fst (Builder_response recovering)) = [200, 200] \<and>
   delays (fst (Builder_response recovering)) \<noteq> [100, 200]"
  by (simp add: recovering_response delays_def)
     (simp add: recovering_def retryDelay_of_def)

lemma attempt_events_retry_update: "attempt_events (b\<lparr>retry := v\<rparr>) n = attempt_events b n"
  by (simp add: attempt_events_def timeout_of_def split: option.splits fetch_result.splits)

lemma run_single_attempt:
  assumes "retry_of b \<le> int n"
  shows "run b n = run (b\<lparr>retry := None\<rparr>) n"
  using assms
  by (subst run.simps [of b n], subst run.simps [of "b\<lparr>retry := None\<rparr>" n])
     (auto simp: Let_def shouldRetryRequest_def timeout_of_def retry_of_def
        split: option.splits fetch_result.splits)

lemma not_retries_at: "retry_of b \<le> int n \<Longrightarrow> \<not> retries_at b n"
  by (auto simp: retries_at_def shouldRetryRequest_def split: fetch_result.splits)

lemma proj_retry_events:
  "new_requests (retry_events b n) = []" "merged_signals (retry_events b n) = []"
  "before_sends (retry_events b n) = []"
  by (simp_all add: retry_events_def new_requests_def merged_signals_def before_sends_def Let_def
      split: fetch_result.splits)

lemma merged_signals_attempt_events: "merged_signals (attempt_events b n) = [n]"
  by (simp add: merged_signals_def attempt_events_def map_filter_append
      split: option.splits fetch_result.splits)

lemma before_sends_attempt_events:
  "before_sends (attempt_events b n) = (if beforeSend b = None then [] else [n])"
  by (simp add: before_sends_def attempt_events_def map_filter_append
      split: option.splits fetch_result.splits)

lemma new_requests_spec_trace: "new_requests (spec_trace b n j) = [n ..< n + j + 1]"
  by (induction j arbitrary: n)
     (simp_all add: new_requests_append new_requests_attempt_events proj_retry_events upt_rec)

lemma merged_signals_spec_trace: "merged_signals (spec_trace b n j) = [n ..< n + j + 1]"
  by (induction j arbitrary: n)
     (simp_all add: merged_signals_def map_filter_append merged_signals_attempt_events [unfolded merged_signals_def]
        proj_retry_events [unfolded merged_signals_def] upt_rec)

lemma before_sends_spec_trace:
  "before_sends (spec_trace b n j) = (if beforeSend b = None then [] else [n ..< n + j + 1])"
  by (induction j arbitrary: n)
     (simp_all add: before_sends_def map_filter_append before_sends_attempt_events [unfolded before_sends_def]
        proj_retry_events [unfolded before_sends_def] upt_rec)

lemma hooked_retries_at: "retries_at hooked 1" "retries_at hooked 2" "\<not> retries_at hooked 3"
  by (simp_all add: retries_at_def hooked_def recovering_def call_hook_def ok_def
      plain_response_def shouldRetryRequest_def retry_of_def RETRY_CODE_LIST_def)

lemma hooked_delays: "length (delays (fst (Builder_response hooked))) = 2"
proof -
  have s: "Suc 1 = 2" "Suc 2 = 3" by simp_all
  have 3: "delays (fst (run hooked 3)) = []"
    by (simp only: run_stop [OF hooked_retries_at(3)] delays_attempt_events)
  have 2: "length (delays (fst (run hooked 2))) = Suc 0"
    by (simp only: run_retry [OF hooked_retries_at(2)] s delays_append delays_attempt_events
        delays_retry_events [OF hooked_retries_at(2)] 3 fst_conv append_Nil append_Nil2
        list.size length_Cons)
  have 1: "length (delays (fst (run hooked 1))) = Suc (Suc 0)"
    by (simp only: run_retry [OF hooked_retries_at(1)] s delays_append delays_attempt_events
        delays_retry_events [OF hooked_retries_at(1)] 2 fst_conv append_Nil append_Cons
        length_Cons)
  show ?thesis
    unfolding Builder_response_def 1 by simp
qed

subsection \<open>One attempt for \<open>retry\<close> 0 and 1 (C7)\<close>

text \<open>
  Claim C7. Whatever the request and the transport do, executing with \<open>maxAttempts = 0\<close>
  and with \<open>maxAttempts = 1\<close> gives the same trace and the same outcome: one request is
  built, no delay is awaited, and exactly one transport call is made (none only when the
  \<open>beforeSend\<close> hook throws before it).
\<close>

theorem zero_and_one_attempts_agree:
  "Builder_response (b\<lparr>retry := Some 0\<rparr>) = Builder_response (b\<lparr>retry := Some 1\<rparr>) \<and>
   delays (fst (Builder_response (b\<lparr>retry := Some 0\<rparr>))) = [] \<and>
   new_requests (fst (Builder_response (b\<lparr>retry := Some 0\<rparr>))) = [1] \<and>
   length (fetches (fst (Builder_response (b\<lparr>retry := Some 0\<rparr>)))) \<le> 1 \<and>
   (call_hook (beforeSend b) 1 = None \<longrightarrow>
      fetches (fst (Builder_response (b\<lparr>retry := Some 0\<rparr>))) = [1])"
proof -
  let ?b0 = "b\<lparr>retry := Some 0\<rparr>" and ?b1 = "b\<lparr>retry := Some 1\<rparr>"
  have "run ?b0 1 = run (?b0\<lparr>retry := None\<rparr>) 1"
    by (rule run_single_attempt) (simp add: retry_of_def)
  moreover have "run ?b1 1 = run (?b1\<lparr>retry := None\<rparr>) 1"
    by (rule run_single_attempt) (simp add: retry_of_def)
  ultimately have eq: "Builder_response ?b0 = Builder_response ?b1"
    by (simp add: Builder_response_def)
  have "\<not> retries_at ?b0 1"
    by (rule not_retries_at) (simp add: retry_of_def)
  then have "fst (run ?b0 1) = attempt_events ?b0 1"
    by (rule run_stop)
  then have tr: "fst (Builder_response ?b0) = attempt_events b 1"
    unfolding Builder_response_def by (simp only: attempt_events_retry_update)
  have "delays (fst (Builder_response ?b0)) = []"
    and "new_requests (fst (Builder_response ?b0)) = [1]"
    and "length (fetches (fst (Builder_response ?b0))) \<le> 1"
    and "call_hook (beforeSend b) 1 = None \<longrightarrow> fetches (fst (Builder_response ?b0)) = [1]"
    by (simp_all add: tr delays_attempt_events new_requests_attempt_events fetches_attempt_events)
  with eq show ?thesis by blast
qed

text \<open>Witness for C7: a transport that always answers 503.\<close>

theorem zero_and_one_attempts_agree_witness:
  "call_hook (beforeSend always_503) 1 = None \<and>
   Builder_response (always_503\<lparr>retry := Some 0\<rparr>) = Builder_response (always_503\<lparr>retry := Some 1\<rparr>) \<and>
   fetches (fst (Builder_response (always_503\<lparr>retry := Some 0\<rparr>))) = [1] \<and>
   delays (fst (Builder_response (always_503\<lparr>retry := Some 0\<rparr>))) = []"
proof -
  have h: "call_hook (beforeSend always_503) 1 = None"
    by (simp add: always_503_def call_hook_def)
  from zero_and_one_attempts_agree [of always_503] h show ?thesis
    by blast
qed

subsection \<open>Hooks, requests and signals per attempt (C9)\<close>

text \<open>
  Claim C9. The trace of an execution is a sequence of attempts \<open>1, 2, ...\<close>, one more
  than there are delays. Each attempt merges its own signal, builds its own request,
  calls \<open>beforeSend\<close> (when configured) on it before the transport call, and calls
  \<open>onResponse\<close> (when configured) with the response of that very call before the
  warning and the delay of the retry decision. So the hooks run once per attempt, not
  once per execution.
\<close>

theorem hooks_once_per_attempt:
  "fst (Builder_response b) = spec_trace b 1 (length (delays (fst (Builder_response b)))) \<and>
   merged_signals (fst (Builder_response b)) = [1 ..< length (delays (fst (Builder_response b))) + 2] \<and>
   new_requests (fst (Builder_response b)) = [1 ..< length (delays (fst (Builder_response b))) + 2] \<and>
   before_sends (fst (Builder_response b)) =
     (if beforeSend b = None then [] else [1 ..< length (delays (fst (Builder_response b))) + 2])"
proof -
  let ?tr = "fst (Builder_response b)"
  have tr: "?tr = spec_trace b 1 (length (delays ?tr))"
    unfolding Builder_response_def by (rule run_trace)
  have "merged_signals ?tr = [1 ..< length (delays ?tr) + 2]"
    by (subst tr) (simp add: merged_signals_spec_trace)
  moreover have "new_requests ?tr = [1 ..< length (delays ?tr) + 2]"
    by (subst tr) (simp add: new_requests_spec_trace)
  moreover have "before_sends ?tr =
     (if beforeSend b = None then [] else [1 ..< length (delays ?tr) + 2])"
    by (subst tr) (simp add: before_sends_spec_trace)
  ultimately show ?thesis using tr by blast
qed

text \<open>Witness for C9: three attempts with both hooks configured.\<close>

theorem hooks_once_per_attempt_witness:
  "fst (Builder_response hooked) =
     [MergeAbortSignals 1 5000, NewRequest 1, BeforeSend 1, Fetch 1,
        OnResponse 1 (plain_response 503), Warn 1 3 503 200, Delay 200,
      MergeAbortSignals 2 5000, NewRequest 2, BeforeSend 2, Fetch 2,
        OnResponse 2 (plain_response 503), Warn 2 3 503 200, Delay 200,
      MergeAbortSignals 3 5000, NewRequest 3, BeforeSend 3, Fetch 3,
        OnResponse 3 (plain_response 200)] \<and>
   before_sends (fst (Builder_response hooked)) = [1, 2, 3]"
proof -
  have a: "attempt_events hooked n =
      [MergeAbortSignals n 5000, NewRequest n, BeforeSend n, Fetch n,
       OnResponse n (if n < 3 then plain_response 503 else plain_response 200)]" for n
    by (simp add: attempt_events_def hooked_def recovering_def call_hook_def timeout_of_def)
  have r: "retry_events hooked n =
      (if n < 3 then [Warn n 3 503 (min 10000 (max 200 (100 * 2 ^ (n - 1)))),
                      Delay (min 10000 (max 200 (100 * 2 ^ (n - 1))))]
       else [Warn n 3 200 (min 10000 (max 200 (100 * 2 ^ (n - 1)))),
             Delay (min 10000 (max 200 (100 * 2 ^ (n - 1))))])" for n
    by (simp add: retry_events_def hooked_def recovering_def retry_after_of_def
        plain_response_def headers_get_def spec_delay_def clamp_def retry_of_def
        retryDelay_of_def Let_def)
  have t: "spec_trace hooked 1 2 =
     [MergeAbortSignals 1 5000, NewRequest 1, BeforeSend 1, Fetch 1,
        OnResponse 1 (plain_response 503), Warn 1 3 503 200, Delay 200,
      MergeAbortSignals 2 5000, NewRequest 2, BeforeSend 2, Fetch 2,
        OnResponse 2 (plain_response 503), Warn 2 3 503 200, Delay 200,
      MergeAbortSignals 3 5000, NewRequest 3, BeforeSend 3, Fetch 3,
        OnResponse 3 (plain_response 200)]"
    by (simp add: eval_nat_numeral a r)
  have u: "[1 ..< 2 + 2] = [1, 2, 3::nat]"
    by (simp add: upt_rec)
  have b: "beforeSend hooked \<noteq> None"
    by (simp add: hooked_def)
  note th = hooks_once_per_attempt [of hooked, unfolded hooked_delays t u]
  from th have 1: "fst (Builder_response hooked) =
     [MergeAbortSignals 1 5000, NewRequest 1, BeforeSend 1, Fetch 1,
        OnResponse 1 (plain_response 503), Warn 1 3 503 200, Delay 200,
      MergeAbortSignals 2 5000, NewRequest 2, BeforeSend 2, Fetch 2,
        OnResponse 2 (plain_response 503), Warn 2 3 503 200, Delay 200,
      MergeAbortSignals 3 5000, NewRequest 3, BeforeSend 3, Fetch 3,
        OnResponse 3 (plain_response 200)]"
    by (rule conjunct1)
  from th have "before_sends (fst (Builder_response hooked)) =
      (if beforeSend hooked = None then [] else [1, 2, 3])"
    by blast
  then have 2: "before_sends (fst (Builder_response hooked)) = [1, 2, 3]"
    by (simp only: b if_False)
  from 1 2 show ?thesis
    by (rule conjI)
qed

section \<open>The claim about \<open>tryRequest\<close>\<close>

lemma tryRequest_retry:
  assumes "tryRequest_retries ctx n"
  shows "tryRequest ctx n =
     (tryRequest_pre ctx n @ [Delay (ctx_retryDelay ctx * 2 ^ n)] @ fst (tryRequest ctx (Suc n))
        @ [ClearTimeout n],
      snd (tryRequest ctx (Suc n)))"
  using assms
  by (subst tryRequest.simps)
     (auto simp: tryRequest_retries_def retryable_exception_def tryRequest_pre_def Let_def
        split: fetch_result.splits js_value.splits)

lemma tryRequest_stop:
  assumes "\<not> tryRequest_retries ctx n"
  shows "fst (tryRequest ctx n) = tryRequest_pre ctx n @ [ClearTimeout n]"
  using assms
  by (subst tryRequest.simps)
     (auto simp: tryRequest_retries_def retryable_exception_def tryRequest_pre_def Let_def
        split: fetch_result.splits js_value.splits)

lemma tryRequest_not_ok:
  assumes "fetch ctx n = Resolves r" and "\<not> ok r"
  shows "tryRequest ctx n = (tryRequest_pre ctx n @ [ClearTimeout n], Failure (SERVER_ERROR r))"
  using assms
  by (subst tryRequest.simps) (simp add: tryRequest_pre_def Let_def)

lemma tryRequest_Fetch: "Fetch n \<in> set (fst (tryRequest ctx n))"
  by (cases "tryRequest_retries ctx n")
     (simp_all add: tryRequest_retry tryRequest_stop tryRequest_pre_def)

text \<open>
  Claim C10. In \<open>tryRequest\<close>, a response outside the success range ends the attempt at
  once: the result is the \<open>SERVER_ERROR\<close> failure with that response, after the one
  transport call of the attempt and without a delay, whatever \<open>retries\<close> and
  \<open>retryDelay\<close> are. Attempt \<open>n + 1\<close> is issued exactly when attempts remain and the
  transport call of attempt \<open>n\<close> rejected with a string that includes the timeout message
  or with a \<open>TypeError\<close> whose message includes \<open>Failed to fetch.\<close>
\<close>

theorem tryRequest_server_error_immediate:
  "(fetch ctx n = Resolves r \<and> \<not> ok r \<longrightarrow>
      tryRequest ctx n =
        ([SetTimeout n (ctx_timeout ctx), MergeSignals n, NewRequest n, Fetch n, ClearTimeout n],
         Failure (SERVER_ERROR r)) \<and>
      delays (fst (tryRequest ctx n)) = [] \<and> fetches (fst (tryRequest ctx n)) = [n]) \<and>
   (Fetch (Suc n) \<in> set (fst (tryRequest ctx n)) \<longleftrightarrow>
      int n < retries_of ctx \<and>
      (\<exists>e. fetch ctx n = Rejects e \<and>
           (case e of
              StringValue s \<Rightarrow> string_includes s TIMEOUT_MESSAGE
            | TypeError msg \<Rightarrow> string_includes msg ''Failed to fetch.''
            | _ \<Rightarrow> False)))"
proof (intro conjI impI)
  assume h: "fetch ctx n = Resolves r \<and> \<not> ok r"
  then have t: "tryRequest ctx n = (tryRequest_pre ctx n @ [ClearTimeout n], Failure (SERVER_ERROR r))"
    by (simp add: tryRequest_not_ok)
  show "tryRequest ctx n =
        ([SetTimeout n (ctx_timeout ctx), MergeSignals n, NewRequest n, Fetch n, ClearTimeout n],
         Failure (SERVER_ERROR r))"
    by (simp add: t tryRequest_pre_def)
  show "delays (fst (tryRequest ctx n)) = []"
    by (simp add: t tryRequest_pre_def delays_def)
  show "fetches (fst (tryRequest ctx n)) = [n]"
    by (simp add: t tryRequest_pre_def fetches_def)
next
  have r: "tryRequest_retries ctx n \<longleftrightarrow>
      int n < retries_of ctx \<and>
      (\<exists>e. fetch ctx n = Rejects e \<and>
           (case e of
              StringValue s \<Rightarrow> string_includes s TIMEOUT_MESSAGE
            | TypeError msg \<Rightarrow> string_includes msg ''Failed to fetch.''
            | _ \<Rightarrow> False))"
    by (auto simp: tryRequest_retries_def retryable_exception_def split: fetch_result.splits)
  have "Fetch (Suc n) \<in> set (fst (tryRequest ctx n)) \<longleftrightarrow> tryRequest_retries ctx n"
  proof (cases "tryRequest_retries ctx n")
    case True
    then show ?thesis
      using tryRequest_Fetch [of "Suc n" ctx] by (simp add: tryRequest_retry)
  next
    case False
    then show ?thesis
      by (simp add: tryRequest_stop tryRequest_pre_def)
  qed
  then show "Fetch (Suc n) \<in> set (fst (tryRequest ctx n)) \<longleftrightarrow>
      int n < retries_of ctx \<and>
      (\<exists>e. fetch ctx n = Rejects e \<and>
           (case e of
              StringValue s \<Rightarrow> string_includes s TIMEOUT_MESSAGE
            | TypeError msg \<Rightarrow> string_includes msg ''Failed to fetch.''
            | _ \<Rightarrow> False))"
    by (simp only: r)
qed

text \<open>Witness for C10: a 503 with \<open>retries: 3\<close>, and a timeout that is retried.\<close>

theorem tryRequest_server_error_immediate_witness:
  "(fetch refusing 1 = Resolves (plain_response 503) \<and> \<not> ok (plain_response 503)) \<and>
   retries_of refusing = 3 \<and>
   tryRequest refusing 1 =
     ([SetTimeout 1 10000, MergeSignals 1, NewRequest 1, Fetch 1, ClearTimeout 1],
      Failure (SERVER_ERROR (plain_response 503))) \<and>
   Fetch 2 \<in> set (fst (tryRequest timing_out 1))"
proof -
  have h: "fetch refusing 1 = Resolves (plain_response 503) \<and> \<not> ok (plain_response 503)"
    by (simp add: refusing_def ok_def plain_response_def)
  have c: "ctx_timeout refusing = 10000" "retries_of refusing = 3"
    by (simp_all add: refusing_def ctx_timeout_def retries_of_def)
  note t1 = tryRequest_server_error_immediate [where ctx = refusing and n = 1
      and r = "plain_response 503", unfolded c]
  have e: "int 1 < retries_of timing_out \<and>
      (\<exists>e. fetch timing_out 1 = Rejects e \<and>
           (case e of
              StringValue s \<Rightarrow> string_includes s TIMEOUT_MESSAGE
            | TypeError msg \<Rightarrow> string_includes msg ''Failed to fetch.''
            | _ \<Rightarrow> False))"
    by (simp add: timing_out_def retries_of_def TIMEOUT_MESSAGE_def startsWith_def)
  note t2 = tryRequest_server_error_immediate [where ctx = timing_out and n = 1
      and r = "plain_response 503"]
  from t2 e have "Fetch (Suc 1) \<in> set (fst (tryRequest timing_out 1))"
    by blast
  then have "Fetch 2 \<in> set (fst (tryRequest timing_out 1))"
    by (simp only: Suc_1)
  with t1 h c show ?thesis
    by blast
qed

section \<open>The claim about \<open>#pathname\<close>\<close>

lemma startsWith_slash: "startsWith s ''/'' \<longleftrightarrow> (\<exists>rest. s = CHR ''/'' # rest)"
  by (cases s) (auto simp: startsWith_def)

lemma endsWith_slash: "endsWith s ''/'' \<longleftrightarrow> s \<noteq> [] \<and> last s = CHR ''/''"
proof (cases s rule: rev_cases)
  case Nil
  then show ?thesis by (simp add: endsWith_def)
next
  case (snoc ys y)
  then show ?thesis by (auto simp: endsWith_def)
qed

lemma strip_segment_spec:
  "spec_piece (StringSegment s) = (if strip_segment s = [] then None else Some (strip_segment s))"
  by (cases "trim s")
     (auto simp: spec_piece_def strip_segment_def Let_def startsWith_slash endsWith_slash
        butlast_conv_take)

lemma pathname_loop_spec: "pathname_loop path acc = acc @ spec_pieces path"
proof (induction path arbitrary: acc)
  case Nil
  then show ?case by (simp add: spec_pieces_def)
next
  case (Cons seg path)
  show ?case
  proof (cases seg)
    case (NumberSegment n)
    then show ?thesis by (simp add: Cons.IH spec_pieces_def spec_piece_def)
  next
    case (StringSegment s)
    then show ?thesis
      by (simp add: Cons.IH spec_pieces_def strip_segment_spec Let_def)
  next
    case NullSegment
    then show ?thesis by (simp add: Cons.IH spec_pieces_def spec_piece_def)
  next
    case UndefinedSegment
    then show ?thesis by (simp add: Cons.IH spec_pieces_def spec_piece_def)
  qed
qed

lemma digits_not_Nil: "digits n \<noteq> []"
  by (subst digits.simps) simp

lemma digit_char_not_slash:
  assumes "k < 10"
  shows "char_of (48 + k :: nat) \<noteq> CHR ''/''"
proof
  assume "char_of (48 + k) = CHR ''/''"
  then have "(of_char (char_of (48 + k)) :: nat) = of_char CHR ''/''"
    by (simp only:)
  then have "(48 + k) mod 256 = 47"
    by simp
  with assms show False
    by simp
qed

lemma digits_no_slash: "CHR ''/'' \<notin> set (digits n)"
proof (induction n rule: digits.induct)
  case (1 n)
  show ?case
  proof (cases "n < 10")
    case True
    then show ?thesis
      using digit_char_not_slash [of n] by (subst digits.simps) auto
  next
    case False
    then show ?thesis
      using 1 digit_char_not_slash [of "n mod 10"] by (subst digits.simps) auto
  qed
qed

lemma String_number_no_slash: "CHR ''/'' \<notin> set (String_number i)"
  by (simp add: String_number_def digits_no_slash)

lemma String_number_not_Nil: "String_number i \<noteq> []"
  by (simp add: String_number_def digits_not_Nil)

lemma spec_piece_not_Nil: "spec_piece seg = Some p \<Longrightarrow> p \<noteq> []"
  by (cases seg) (auto simp: spec_piece_def Let_def String_number_not_Nil split: if_splits)

lemma spec_pieces_not_Nil: "[] \<notin> set (spec_pieces path)"
  by (auto simp: spec_pieces_def List.map_filter_def dest: spec_piece_not_Nil)

lemma spec_pieces_origin:
  "p \<in> set (spec_pieces path) \<Longrightarrow> \<exists>seg \<in> set path. spec_piece seg = Some p"
  by (auto simp: spec_pieces_def List.map_filter_def)

lemma startsWith_join:
  assumes "[] \<notin> set ps"
  shows "startsWith (join ''/'' ps) ''/'' \<longleftrightarrow> ps \<noteq> [] \<and> startsWith (hd ps) ''/''"
proof (cases ps)
  case Nil
  then show ?thesis by (simp add: startsWith_def)
next
  case (Cons p qs)
  with assms obtain c cs where p: "p = c # cs" by (cases p) auto
  show ?thesis
    by (cases qs) (simp_all add: Cons p startsWith_def)
qed

lemma startsWith_slash_hd: "startsWith s ''/'' \<longleftrightarrow> s \<noteq> [] \<and> hd s = CHR ''/''"
  by (cases s) (auto simp: startsWith_def)

lemma hd_butlast_nonempty: "butlast xs \<noteq> [] \<Longrightarrow> hd (butlast xs) = hd xs"
  by (cases xs) (auto split: if_splits)

lemma endsWith_Cons: "endsWith xs p \<Longrightarrow> endsWith (c # xs) p"
  by (auto simp: endsWith_def Suc_diff_le)

lemma endsWith_two_slashes:
  assumes "xs \<noteq> []" and "last xs = CHR ''/''"
    and "butlast xs \<noteq> []" and "last (butlast xs) = CHR ''/''"
  shows "endsWith xs ''//''"
proof -
  from assms(1,2) have 1: "xs = butlast xs @ ''/''"
    by (metis append_butlast_last_id)
  from assms(3,4) have 2: "butlast xs = butlast (butlast xs) @ ''/''"
    by (metis append_butlast_last_id)
  from 1 2 have "xs = butlast (butlast xs) @ ''//''"
    by (metis append.assoc append_Cons append_Nil)
  then obtain pre where "xs = pre @ ''//''" ..
  then show ?thesis
    by (simp add: endsWith_def)
qed

lemma spec_piece_StringSegment:
  assumes "spec_piece (StringSegment s) = Some p"
  obtains t1 where "t1 = (if startsWith (trim s) ''/'' then tl (trim s) else trim s)"
    and "p = (if t1 \<noteq> [] \<and> last t1 = CHR ''/'' then butlast t1 else t1)" and "p \<noteq> []"
  using assms
  by (cases "trim s") (auto simp: spec_piece_def Let_def startsWith_def split: if_splits)

lemma piece_startsWith_slash:
  assumes "spec_piece seg = Some p" and "startsWith p ''/''"
  shows "\<exists>s. seg = StringSegment s \<and> startsWith (trim s) ''//''"
proof (cases seg)
  case (NumberSegment n)
  with assms String_number_no_slash [of n] show ?thesis
    by (auto simp: spec_piece_def startsWith_slash)
next
  case (StringSegment s)
  with assms(1) obtain t1
    where t1: "t1 = (if startsWith (trim s) ''/'' then tl (trim s) else trim s)"
      and p: "p = (if t1 \<noteq> [] \<and> last t1 = CHR ''/'' then butlast t1 else t1)" and ne: "p \<noteq> []"
    by (auto elim: spec_piece_StringSegment)
  from assms(2) have hp: "hd p = CHR ''/''"
    by (simp add: startsWith_slash_hd)
  from p ne have "hd p = hd t1" and "t1 \<noteq> []"
    by (auto simp: hd_butlast_nonempty split: if_splits)
  with hp have h1: "t1 \<noteq> []" "hd t1 = CHR ''/''" by simp_all
  have "startsWith (trim s) ''//''"
  proof (cases "startsWith (trim s) ''/''")
    case True
    then obtain rest where r: "trim s = CHR ''/'' # rest"
      by (auto simp: startsWith_slash)
    with t1 True have "t1 = rest" by simp
    with h1 obtain rest' where "rest = CHR ''/'' # rest'"
      by (cases rest) auto
    with r show ?thesis by (simp add: startsWith_def)
  next
    case False
    with t1 have "t1 = trim s" by simp
    with h1 False show ?thesis by (simp add: startsWith_slash_hd)
  qed
  with StringSegment show ?thesis by simp
next
  case NullSegment
  with assms show ?thesis by (simp add: spec_piece_def)
next
  case UndefinedSegment
  with assms show ?thesis by (simp add: spec_piece_def)
qed

lemma piece_endsWith_slash:
  assumes "spec_piece seg = Some p" and "endsWith p ''/''"
  shows "\<exists>s. seg = StringSegment s \<and> endsWith (trim s) ''//''"
proof (cases seg)
  case (NumberSegment n)
  with assms String_number_no_slash [of n] String_number_not_Nil [of n] show ?thesis
    by (auto simp: spec_piece_def endsWith_slash dest: last_in_set)
next
  case (StringSegment s)
  with assms(1) obtain t1
    where t1: "t1 = (if startsWith (trim s) ''/'' then tl (trim s) else trim s)"
      and p: "p = (if t1 \<noteq> [] \<and> last t1 = CHR ''/'' then butlast t1 else t1)" and ne: "p \<noteq> []"
    by (auto elim: spec_piece_StringSegment)
  from assms(2) have lp: "last p = CHR ''/''"
    by (simp add: endsWith_slash)
  from p ne lp have "t1 \<noteq> []" "last t1 = CHR ''/''" "butlast t1 \<noteq> []"
      "last (butlast t1) = CHR ''/''"
    by (auto split: if_splits)
  then have e: "endsWith t1 ''//''"
    by (rule endsWith_two_slashes)
  have "endsWith (trim s) ''//''"
  proof (cases "startsWith (trim s) ''/''")
    case True
    then obtain rest where r: "trim s = CHR ''/'' # rest"
      by (auto simp: startsWith_slash)
    with t1 True have "t1 = rest" by simp
    with e r show ?thesis by (simp add: endsWith_Cons)
  next
    case False
    with t1 e show ?thesis by simp
  qed
  with StringSegment show ?thesis by simp
next
  case NullSegment
  with assms show ?thesis by (simp add: spec_piece_def)
next
  case UndefinedSegment
  with assms show ?thesis by (simp add: spec_piece_def)
qed

lemma todos_pathname:
  "pathname [StringSegment '' /todos/ '', NumberSegment 1, NullSegment] = ''todos/1''"
  by code_simp

lemma todos_trim: "trim '' /todos/ '' = ''/todos/''"
  by code_simp

text \<open>
  Claim C8, as amended. The pathname is the join with \<open>/\<close> of the segments that survive:
  numbers stringified as they are, strings trimmed and relieved of at most one leading
  and at most one trailing slash, empty results dropped. No surviving segment is empty.
  When no string segment, once trimmed, begins with two slashes, the pathname does not
  begin with a slash; when none begins or ends with two slashes, no surviving segment
  begins or ends with a slash, so that no empty segment arises where two segments are
  joined.
\<close>

theorem pathname_segments:
  "pathname path = join ''/'' (spec_pieces path) \<and>
   [] \<notin> set (spec_pieces path) \<and>
   ((\<forall>s. StringSegment s \<in> set path \<longrightarrow> \<not> startsWith (trim s) ''//'') \<longrightarrow>
      \<not> startsWith (pathname path) ''/'') \<and>
   ((\<forall>s. StringSegment s \<in> set path \<longrightarrow>
          \<not> startsWith (trim s) ''//'' \<and> \<not> endsWith (trim s) ''//'') \<longrightarrow>
      (\<forall>p \<in> set (spec_pieces path). \<not> startsWith p ''/'' \<and> \<not> endsWith p ''/''))"
proof (intro conjI impI ballI)
  show eq: "pathname path = join ''/'' (spec_pieces path)"
    by (simp add: pathname_def pathname_loop_spec)
  show "[] \<notin> set (spec_pieces path)"
    by (rule spec_pieces_not_Nil)
  {
    assume h: "\<forall>s. StringSegment s \<in> set path \<longrightarrow> \<not> startsWith (trim s) ''//''"
    show "\<not> startsWith (pathname path) ''/''"
    proof
      assume "startsWith (pathname path) ''/''"
      then have ne: "spec_pieces path \<noteq> []" and st: "startsWith (hd (spec_pieces path)) ''/''"
        by (simp_all add: eq startsWith_join [OF spec_pieces_not_Nil])
      from ne have "hd (spec_pieces path) \<in> set (spec_pieces path)" by simp
      then obtain seg where "seg \<in> set path" "spec_piece seg = Some (hd (spec_pieces path))"
        by (auto dest: spec_pieces_origin)
      with st h show False
        by (auto dest: piece_startsWith_slash)
    qed
  }
  {
    fix p
    assume h: "\<forall>s. StringSegment s \<in> set path \<longrightarrow>
          \<not> startsWith (trim s) ''//'' \<and> \<not> endsWith (trim s) ''//''"
      and p: "p \<in> set (spec_pieces path)"
    from p obtain seg where seg: "seg \<in> set path" "spec_piece seg = Some p"
      by (auto dest: spec_pieces_origin)
    show "\<not> startsWith p ''/''"
      using seg h by (auto dest: piece_startsWith_slash)
    show "\<not> endsWith p ''/''"
      using seg h by (auto dest: piece_endsWith_slash)
  }
qed

text \<open>Witness for C8: \<open>client.get(" /todos/ ", 1, null)\<close>.\<close>

theorem pathname_segments_witness:
  "pathname [StringSegment '' /todos/ '', NumberSegment 1, NullSegment] = ''todos/1'' \<and>
   spec_pieces [StringSegment '' /todos/ '', NumberSegment 1, NullSegment] = [''todos'', ''1''] \<and>
   \<not> startsWith (trim '' /todos/ '') ''//'' \<and> \<not> endsWith (trim '' /todos/ '') ''//'' \<and>
   \<not> startsWith (pathname [StringSegment '' /todos/ '', NumberSegment 1, NullSegment]) ''/''"
proof -
  let ?path = "[StringSegment '' /todos/ '', NumberSegment 1, NullSegment]"
  have t: "\<not> startsWith (trim '' /todos/ '') ''//''" "\<not> endsWith (trim '' /todos/ '') ''//''"
    by (simp_all add: todos_trim startsWith_def endsWith_def)
  then have h: "\<forall>s. StringSegment s \<in> set ?path \<longrightarrow> \<not> startsWith (trim s) ''//''"
    by simp
  have p: "spec_pieces ?path = [''todos'', ''1'']"
    by code_simp
  from pathname_segments [of ?path] h
  have "\<not> startsWith (pathname ?path) ''/''"
    by blast
  with t p todos_pathname show ?thesis
    by blast
qed

text \<open>
  Counterexample to claim C8 as stated: a segment with two leading slashes keeps one, so
  the pathname begins with a slash; a segment with two trailing slashes keeps one, so
  the join shows an empty segment at the boundary.
\<close>

theorem pathname_leading_slash_counterexample:
  "pathname [StringSegment ''//a''] = ''/a'' \<and>
   startsWith (pathname [StringSegment ''//a'']) ''/'' \<and>
   pathname [StringSegment ''a//'', StringSegment ''b''] = ''a//b''"
  by code_simp

section \<open>The claims about the signal composer\<close>

lemmas heap_defs =
  mergeAbortSignals_def mergeSignals_def new_AbortController_def user_aborted_def
  both_pending_def pending_signal_def controller_abort_def signal_abort_def source_add_def
  source_remove_def controller_add_def controller_remove_def addEventListener_def
  removeEventListener_def default_abort_reason_def timeout_reason_def Let_def

text \<open>
  Claim C4, evaluated on \<open>mergeAbortSignals\<close> where the user signal is aborted already,
  with the reason \<open>"stop"\<close>, and the timeout signal is not. The merged signal is aborted
  when the composer returns, as claimed. Its reason is the default \<open>AbortError\<close>, not
  the reason of the user signal, since line 1412 calls \<open>controller.abort()\<close> without an
  argument. And \<open>onAbort\<close> has been registered on the timeout signal (line 1406); it
  stays there, also after the timeout fires, since the cleanup listener of line 1419 is
  added to a signal that has aborted before and so never runs.
\<close>

theorem mergeAbortSignals_user_aborted:
  "aborted (sources user_aborted 1) \<and>
   reason (sources user_aborted 1) = Some (StringValue ''stop'') \<and>
   \<not> aborted (sources user_aborted 0) \<and>
   (case mergeAbortSignals 0 (Some 1) user_aborted of
      (signal, h) \<Rightarrow>
        aborted (controllers h signal) \<and>
        reason (controllers h signal) = Some default_abort_reason \<and>
        reason (controllers h signal) \<noteq> Some (StringValue ''stop'') \<and>
        listeners (sources h 0) = [OnAbort signal] \<and>
        listeners (sources h 1) = [] \<and>
        listeners (sources (signal_abort 0 timeout_reason h) 0) = [OnAbort signal])"
  by (simp add: heap_defs)

text \<open>
  For comparison, \<open>mergeSignals\<close> on the same heap: the reason is passed on
  (\<open>controller.abort(signal.reason)\<close>) and \<open>cleanup()\<close> is called at once when the merged
  signal is aborted already, so no listener stays behind.
\<close>

lemma mergeSignals_user_aborted:
  "(case mergeSignals [0, 1] user_aborted of
      (signal, h) \<Rightarrow>
        aborted (controllers h signal) \<and>
        reason (controllers h signal) = Some (StringValue ''stop'') \<and>
        listeners (sources h 0) = [] \<and>
        listeners (sources h 1) = [])"
  by (simp add: heap_defs)

text \<open>
  Claim C5, evaluated on \<open>mergeAbortSignals\<close> where no signal has fired and then the
  timeout signal fires with its \<open>TimeoutError\<close>. The merged signal fires, and \<open>onAbort\<close>
  is detached from both sources, as claimed. Its reason, however, is the default
  \<open>AbortError\<close> and not the \<open>TimeoutError\<close> of the source, since \<open>onAbort\<close> (line 1400)
  calls \<open>controller.abort()\<close> without an argument.
\<close>

theorem mergeAbortSignals_timeout_fires:
  "\<not> aborted (sources both_pending 0) \<and> \<not> aborted (sources both_pending 1) \<and>
   (case mergeAbortSignals 0 (Some 1) both_pending of
      (signal, h) \<Rightarrow>
        \<not> aborted (controllers h signal) \<and>
        listeners (sources h 0) = [OnAbort signal] \<and>
        listeners (sources h 1) = [OnAbort signal] \<and>
        (let h' = signal_abort 0 timeout_reason h
         in reason (sources h' 0) = Some timeout_reason \<and>
            aborted (controllers h' signal) \<and>
            reason (controllers h' signal) = Some default_abort_reason \<and>
            reason (controllers h' signal) \<noteq> Some timeout_reason \<and>
            listeners (sources h' 0) = [] \<and>
            listeners (sources h' 1) = []))"
  by (simp add: heap_defs)

text \<open>For comparison, \<open>mergeSignals\<close> on the same heap passes the reason on.\<close>

lemma mergeSignals_timeout_fires:
  "(case mergeSignals [0, 1] both_pending of
      (signal, h) \<Rightarrow>
        (let h' = signal_abort 0 timeout_reason h
         in aborted (controllers h' signal) \<and>
            reason (controllers h' signal) = Some timeout_reason \<and>
            listeners (sources h' 0) = [] \<and>
            listeners (sources h' 1) = []))"
  by (simp add: heap_defs)

text \<open>
  What the reason means for the engine: the transport rejects with the reason of the
  request's signal, and \<open>#handleError\<close> tells a timeout from a cancellation by the
  name of that reason.
\<close>

lemma handleError_default_abort_reason:
  "handleError default_abort_reason =
     AbortError ''signal is aborted without reason'' default_abort_reason"
  by (simp add: handleError_def default_abort_reason_def)

lemma handleError_timeout_reason:
  "handleError timeout_reason = TimeoutError ''The operation timed out.'' timeout_reason"
  by (simp add: handleError_def timeout_reason_def)

end
